theory Spec2Isabelle
  imports Main "HOL-Library.Word"
begin

unbundle bit_operations_syntax

section \<open>Failures and deferred values\<close>

text \<open>
  The exceptions the sources throw: \<open>osmium::bzip2_error\<close> (message and bzlib error
  code; its \<open>system_errno\<close> copies the process-wide \<open>errno\<close> and is left out),
  \<open>std::system_error\<close> (message), and any other failure a decompressor may raise.
\<close>

datatype exn =
    Bzip2_error string int
  | System_error string
  | Other_failure string

text \<open>
  A \<open>std::future\<close> that \<open>add_to_queue\<close> has pushed: it holds a value or an
  exception. \<open>future.get()\<close> returns the value or rethrows the exception.
\<close>

type_synonym 'a future = "exn + 'a"

text \<open>What a call that may throw or wait forever does.\<close>

datatype 'a outcome = Returned 'a | Raised exn | Blocked

section \<open>The channel: \<open>osmium::thread::Queue\<close> of futures\<close>

text \<open>
  Modelled from the spec: \<open>osmium::thread::Queue\<close> (osmium/thread/queue.hpp) is not
  among the sources. The spec describes it as an unbounded, strictly FIFO sequence of
  slots: \<open>push\<close> appends, \<open>wait_and_pop\<close> removes the oldest slot and waits while
  there is none. The list holds the slots that are pushed and not yet popped, with all
  that the producer will still push; \<open>wait_and_pop\<close> on the empty list waits forever
  (\<open>None\<close>).
\<close>

type_synonym 'a queue = "'a future list"

definition push :: "'a queue \<Rightarrow> 'a future \<Rightarrow> 'a queue" where
  "push queue f = queue @ [f]"

definition wait_and_pop :: "'a queue \<Rightarrow> ('a future \<times> 'a queue) option" where
  "wait_and_pop queue = (case queue of [] \<Rightarrow> None | f # rest \<Rightarrow> Some (f, rest))"

text \<open>The two overloads of \<open>add_to_queue\<close>: a value, or an exception pointer.\<close>

definition add_to_queue :: "'a queue \<Rightarrow> 'a \<Rightarrow> 'a queue" where
  "add_to_queue queue data = push queue (Inr data)"

definition add_to_queue_exception :: "'a queue \<Rightarrow> exn \<Rightarrow> 'a queue" where
  "add_to_queue_exception queue exception = push queue (Inl exception)"

section \<open>\<open>queue_wrapper\<close>\<close>

text \<open>
  The wrapper holds a reference to the channel and the flag \<open>m_done\<close>. The template
  parameter \<open>T\<close> enters through \<open>T{}\<close> (the argument \<open>dflt\<close>) and through the
  specialisation of \<open>check_is_done\<close> (the argument \<open>is_end\<close>: \<open>data.empty()\<close> for
  \<open>std::string\<close>, \<open>!data\<close> for \<open>osmium::memory::Buffer\<close>).
\<close>

record 'a queue_wrapper =
  m_queue :: "'a queue"
  m_done :: bool

definition queue_wrapper_init :: "'a queue \<Rightarrow> 'a queue_wrapper" where
  "queue_wrapper_init queue = \<lparr>m_queue = queue, m_done = False\<rparr>"

definition is_done :: "'a queue_wrapper \<Rightarrow> bool" where
  "is_done w = m_done w"

definition check_is_done :: "('a \<Rightarrow> bool) \<Rightarrow> 'a \<Rightarrow> 'a queue_wrapper \<Rightarrow> 'a queue_wrapper" where
  "check_is_done is_end data w = w\<lparr>m_done := is_end data\<rparr>"

definition pop :: "'a \<Rightarrow> ('a \<Rightarrow> bool) \<Rightarrow> 'a queue_wrapper \<Rightarrow> 'a outcome \<times> 'a queue_wrapper" where
  "pop dflt is_end w =
     (if m_done w then (Returned dflt, w)
      else case wait_and_pop (m_queue w) of
             None \<Rightarrow> (Blocked, w)
           | Some (data_future, rest) \<Rightarrow>
               (case data_future of
                  Inl e \<Rightarrow> (Raised e, w\<lparr>m_queue := rest\<rparr>)
                | Inr data \<Rightarrow> (Returned data, check_is_done is_end data (w\<lparr>m_queue := rest\<rparr>))))"

text \<open>
  \<open>drain\<close>: \<open>while (!m_done) { try { pop(); } catch (...) {} }\<close>. A \<open>pop\<close> that
  waits forever makes \<open>drain\<close> wait forever (\<open>None\<close>); every other \<open>pop\<close> takes one
  slot from the channel, which is what the recursion descends on.
\<close>

function drain :: "'a \<Rightarrow> ('a \<Rightarrow> bool) \<Rightarrow> 'a queue_wrapper \<Rightarrow> 'a queue_wrapper option" where
  "drain dflt is_end w =
     (if m_done w then Some w
      else case pop dflt is_end w of
             (Blocked, _) \<Rightarrow> None
           | (Returned _, w') \<Rightarrow> drain dflt is_end w'
           | (Raised _, w') \<Rightarrow> drain dflt is_end w')"
  by pat_completeness auto
termination
  by (relation "measure (\<lambda>(dflt, is_end, w). length (m_queue w))")
     (auto simp: pop_def wait_and_pop_def check_is_done_def
           split: list.splits sum.splits if_splits)

text \<open>The destructor: \<open>~queue_wrapper() noexcept { drain(); }\<close>.\<close>

definition queue_wrapper_destroy :: "'a \<Rightarrow> ('a \<Rightarrow> bool) \<Rightarrow> 'a queue_wrapper \<Rightarrow> 'a queue_wrapper option" where
  "queue_wrapper_destroy dflt is_end w = drain dflt is_end w"

declare drain.simps [simp del]

text \<open>
  A slot that ends the stream for the wrapper: a value that \<open>check_is_done\<close> takes for
  the sentinel. A slot holding an exception never is.
\<close>

definition is_sentinel :: "('a \<Rightarrow> bool) \<Rightarrow> 'a future \<Rightarrow> bool" where
  "is_sentinel is_end f = (case f of Inl _ \<Rightarrow> False | Inr data \<Rightarrow> is_end data)"

text \<open>
  The wrapper over strings: \<open>T{}\<close> is the empty string and \<open>check_is_done\<close> is
  \<open>data.empty()\<close>.
\<close>

definition string_empty :: "string \<Rightarrow> bool" where
  "string_empty data = (data = [])"

text \<open>A consumer that calls \<open>pop\<close> \<open>n\<close> times in a row and keeps what each call did.\<close>

fun pop_n :: "'a \<Rightarrow> ('a \<Rightarrow> bool) \<Rightarrow> nat \<Rightarrow> 'a queue_wrapper \<Rightarrow> 'a outcome list \<times> 'a queue_wrapper" where
  "pop_n dflt is_end 0 w = ([], w)"
| "pop_n dflt is_end (Suc n) w =
     (case pop dflt is_end w of
        (r, w') \<Rightarrow> (case pop_n dflt is_end n w' of (rs, w'') \<Rightarrow> (r # rs, w'')))"

section \<open>\<open>ReadThreadManager\<close>\<close>

text \<open>
  The manager drives an \<open>osmium::io::Decompressor\<close> through its virtual \<open>read\<close> and
  \<open>close\<close>. A decompressor is a state \<open>'d\<close> with the two operations: \<open>read\<close> gives
  a string or throws, \<open>close\<close> returns or throws, and both may change the state.
\<close>

type_synonym 'd reader = "'d \<Rightarrow> (exn + string) \<times> 'd"
type_synonym 'd closer = "'d \<Rightarrow> exn option \<times> 'd"

text \<open>
  The loop of \<open>run_in_thread\<close>:
  \<^verbatim>\<open>while (!m_done) { data = read(); if (data.empty()) break; add_to_queue(m_queue, data); }\<close>
  The flag \<open>m_done\<close> is set by another thread: \<open>done_at i\<close> is the value the \<open>i\<close>-th
  evaluation of the loop condition reads (counted from 0). The loop may run forever, so it
  takes fuel: one unit for each evaluation of the condition, \<open>None\<close> when the fuel is
  used up before the loop ends. The result is the exception that left the loop, if any,
  with the decompressor and the channel as the loop left them.
\<close>

fun read_loop :: "'d reader \<Rightarrow> (nat \<Rightarrow> bool) \<Rightarrow> nat \<Rightarrow> nat \<Rightarrow> 'd \<Rightarrow> string queue
    \<Rightarrow> (exn option \<times> 'd \<times> string queue) option" where
  "read_loop rd done_at 0 i d queue = None"
| "read_loop rd done_at (Suc fuel) i d queue =
     (if done_at i then Some (None, d, queue)
      else case rd d of
             (Inl e, d') \<Rightarrow> Some (Some e, d', queue)
           | (Inr data, d') \<Rightarrow>
               if data = [] then Some (None, d', queue)
               else read_loop rd done_at fuel (Suc i) d' (add_to_queue queue data))"

text \<open>The \<open>try\<close> block: the loop, then \<open>m_decompressor->close()\<close>.\<close>

definition try_block :: "'d reader \<Rightarrow> 'd closer \<Rightarrow> (nat \<Rightarrow> bool) \<Rightarrow> nat \<Rightarrow> 'd \<Rightarrow> string queue
    \<Rightarrow> (exn option \<times> 'd \<times> string queue) option" where
  "try_block rd cl done_at fuel d queue =
     (case read_loop rd done_at fuel 0 d queue of
        None \<Rightarrow> None
      | Some (Some e, d', queue') \<Rightarrow> Some (Some e, d', queue')
      | Some (None, d', queue') \<Rightarrow> (case cl d' of (r, d'') \<Rightarrow> Some (r, d'', queue')))"

text \<open>
  \<open>run_in_thread\<close>: the \<open>try\<close> block, the handler
  \<^verbatim>\<open>catch (...) { add_to_queue(m_queue, std::current_exception()); }\<close>
  and the final \<^verbatim>\<open>add_to_queue(m_queue, std::string{})\<close>.
\<close>

definition run_in_thread :: "'d reader \<Rightarrow> 'd closer \<Rightarrow> (nat \<Rightarrow> bool) \<Rightarrow> nat \<Rightarrow> 'd \<Rightarrow> string queue
    \<Rightarrow> ('d \<times> string queue) option" where
  "run_in_thread rd cl done_at fuel d queue =
     (case try_block rd cl done_at fuel d queue of
        None \<Rightarrow> None
      | Some (r, d', queue') \<Rightarrow>
          Some (d', add_to_queue
                      (case r of None \<Rightarrow> queue' | Some e \<Rightarrow> add_to_queue_exception queue' e)
                      []))"

text \<open>
  The first \<open>n\<close> calls of \<open>read\<close> on a decompressor, one after the other: what each
  call gave, and the decompressor after the last. And the slot that the handler of
  \<open>run_in_thread\<close> pushes for what \<open>close\<close> did: none when it returned.
\<close>

fun read_n :: "'d reader \<Rightarrow> nat \<Rightarrow> 'd \<Rightarrow> (exn + string) list \<times> 'd" where
  "read_n rd 0 d = ([], d)"
| "read_n rd (Suc n) d =
     (case rd d of (r, d') \<Rightarrow> (case read_n rd n d' of (rs, d'') \<Rightarrow> (r # rs, d'')))"

definition failure_slot :: "exn option \<Rightarrow> string queue" where
  "failure_slot r = (case r of None \<Rightarrow> [] | Some e \<Rightarrow> [Inl e])"

text \<open>
  A decompressor for examples: its state is the list of results its reads still give
  (a string, or a failure to throw); when the list is used up, \<open>read\<close> gives the empty
  string. Its \<open>close\<close> throws the failure it is given, if any.
\<close>

definition script_read :: "(exn + string) list reader" where
  "script_read d = (case d of [] \<Rightarrow> (Inr [], []) | x # rest \<Rightarrow> (x, rest))"

definition script_close :: "exn option \<Rightarrow> (exn + string) list closer" where
  "script_close r d = (r, d)"

text \<open>
  The manager itself. \<open>m_decompressor\<close> and \<open>m_queue\<close> are used by the background
  thread only, \<open>m_done\<close> by both threads, \<open>m_thread\<close> by the main thread only (the
  fields whose names \<open>queue_wrapper\<close> has too carry a suffix). A \<open>std::thread\<close>
  is joinable from the moment it is started until it is joined; while it is joinable the
  state records where \<open>run_in_thread\<close> stands when the main thread looks: about to
  evaluate the loop condition, inside a cycle whose condition it has already passed, or
  returned.
\<close>

datatype phase = At_check | In_cycle | Exited

datatype thread = Not_joinable | Joinable phase

record 'd ReadThreadManager =
  m_decompressor :: 'd
  m_queue_rtm :: "string queue"
  m_done_rtm :: bool
  m_thread :: thread

definition ReadThreadManager_init :: "'d \<Rightarrow> string queue \<Rightarrow> 'd ReadThreadManager" where
  "ReadThreadManager_init decompressor queue =
     \<lparr>m_decompressor = decompressor, m_queue_rtm = queue, m_done_rtm = False,
      m_thread = Joinable At_check\<rparr>"

definition stop :: "'d ReadThreadManager \<Rightarrow> 'd ReadThreadManager" where
  "stop m = m\<lparr>m_done_rtm := True\<rparr>"

text \<open>
  What the background thread still does while the main thread waits in
  \<open>m_thread.join()\<close>. Nothing changes \<open>m_done\<close> during the wait, so every evaluation
  of the loop condition that is still to come reads the flag as the manager holds it:
  the argument \<open>flag\<close>. A thread about to evaluate the condition reads it from its first
  evaluation on; a thread inside a cycle has passed one evaluation already and reads it
  from the next one on. These are runs of \<open>run_in_thread\<close> on the current decompressor
  and channel, and they take fuel as every run does: with the flag unset the thread may run
  forever.
\<close>

fun thread_rest :: "'d reader \<Rightarrow> 'd closer \<Rightarrow> bool \<Rightarrow> nat \<Rightarrow> phase \<Rightarrow> 'd \<Rightarrow> string queue
    \<Rightarrow> ('d \<times> string queue) option" where
  "thread_rest rd cl flag fuel At_check d queue = run_in_thread rd cl (\<lambda>i. flag) fuel d queue"
| "thread_rest rd cl flag fuel In_cycle d queue = run_in_thread rd cl (\<lambda>i. 0 < i \<and> flag) fuel d queue"
| "thread_rest rd cl flag fuel Exited d queue = Some (d, queue)"

text \<open>
  \<open>m_thread.join()\<close> on a joinable thread: it returns when the thread has run to its
  end, with the decompressor and the channel as the thread left them, and the thread is no
  longer joinable. \<open>None\<close> is a \<open>join\<close> that has not returned within the fuel.
\<close>

definition join :: "'d reader \<Rightarrow> 'd closer \<Rightarrow> nat \<Rightarrow> phase \<Rightarrow> 'd ReadThreadManager
    \<Rightarrow> 'd ReadThreadManager option" where
  "join rd cl fuel ph m =
     (case thread_rest rd cl (m_done_rtm m) fuel ph (m_decompressor m) (m_queue_rtm m) of
        None \<Rightarrow> None
      | Some (d', queue') \<Rightarrow>
          Some (m\<lparr>m_decompressor := d', m_queue_rtm := queue', m_thread := Not_joinable\<rparr>))"

text \<open>\<open>close\<close>: \<^verbatim>\<open>stop(); if (m_thread.joinable()) { m_thread.join(); }\<close>.\<close>

definition close_rtm :: "'d reader \<Rightarrow> 'd closer \<Rightarrow> nat \<Rightarrow> 'd ReadThreadManager \<Rightarrow> 'd ReadThreadManager option" where
  "close_rtm rd cl fuel m =
     (let m1 = stop m in
      case m_thread m1 of
        Not_joinable \<Rightarrow> Some m1
      | Joinable ph \<Rightarrow> join rd cl fuel ph m1)"

text \<open>The destructor calls \<open>close\<close> and drops whatever it throws.\<close>

definition ReadThreadManager_destroy :: "'d reader \<Rightarrow> 'd closer \<Rightarrow> nat \<Rightarrow> 'd ReadThreadManager \<Rightarrow> 'd ReadThreadManager option" where
  "ReadThreadManager_destroy rd cl fuel m = close_rtm rd cl fuel m"

text \<open>
  A decompressor that counts the calls of \<open>read\<close> made on it, to tell how many reads
  a run performs.
\<close>

definition counting_read :: "'d reader \<Rightarrow> (nat \<times> 'd) reader" where
  "counting_read rd = (\<lambda>(n, d). case rd d of (r, d') \<Rightarrow> (r, (Suc n, d')))"

definition counting_close :: "'d closer \<Rightarrow> (nat \<times> 'd) closer" where
  "counting_close cl = (\<lambda>(n, d). case cl d of (r, d') \<Rightarrow> (r, (n, d')))"

section \<open>The bzip2 codec: what it calls\<close>

text \<open>
  The codec classes drive libbz2 and the C library. What those answer is not decided by
  the code: every method takes the answers it receives during one call as an \<open>env\<close>,
  and every call that acts on the outside world is appended to the field \<open>calls\<close> of the
  object, so that what a method did, and in which order, can be read off.
\<close>

text \<open>Status codes of \<open>bzlib.h\<close>, and \<open>INT_MAX\<close>.\<close>

definition BZ_OK :: int where "BZ_OK = 0"
definition BZ_STREAM_END :: int where "BZ_STREAM_END = 4"
definition BZ_PARAM_ERROR :: int where "BZ_PARAM_ERROR = - 2"
definition BZ_IO_ERROR :: int where "BZ_IO_ERROR = - 6"
definition INT_MAX :: nat where "INT_MAX = 2 ^ 31 - 1"
definition UINT_MAX :: nat where "UINT_MAX = 2 ^ 32 - 1"

text \<open>A stdio stream is known by its descriptor; a \<open>BZFILE*\<close> is a handle number.\<close>

datatype FILE = FILE int

fun fileno :: "FILE \<Rightarrow> int" where
  "fileno (FILE fd) = fd"

type_synonym BZFILE = nat

datatype call =
    BZ2_bzWriteOpen FILE
  | BZ2_bzWrite BZFILE string
  | BZ2_bzWriteClose64 BZFILE
  | BZ2_bzReadOpen FILE string
  | BZ2_bzRead BZFILE
  | BZ2_bzReadGetUnused BZFILE
  | BZ2_bzReadClose BZFILE
  | Reliable_fsync int
  | Fclose FILE
  | Remove_buffered_pages int "64 word option"

record env =
  fdopen_succeeds :: bool
  bzWriteOpen_result :: "BZFILE option \<times> int"
  bzWrite_result :: int
  bzWriteClose64_result :: "int \<times> 32 word \<times> 32 word"
  fsync_result :: "exn option"
  fclose_result :: int
  ftell_before :: int
  ftell_after :: int
  bzRead_result :: "int \<times> string"
  feof_result :: bool
  bzReadGetUnused_result :: "int \<times> string"
  bzReadClose_result :: int
  bzReadOpen_result :: "BZFILE option \<times> int"
  bzerror_result :: "string \<times> int"
  bzDecompressInit_result :: int
  bzDecompress_result :: "int \<times> string \<times> 32 word"

text \<open>
  What a method does: it returns, throws, fails an \<open>assert\<close>, or steps outside what
  C defines (a null \<open>FILE*\<close> passed to the C library).
\<close>

datatype 'a result = Ok 'a | Throw exn | Assert_failed | Undefined

text \<open>\<open>std::to_string\<close> on an \<open>int\<close>.\<close>

fun to_string_nat :: "nat \<Rightarrow> string" where
  "to_string_nat n =
     (if n < 10 then [char_of (48 + n)]
      else to_string_nat (n div 10) @ [char_of (48 + n mod 10)])"

declare to_string_nat.simps [simp del]

definition to_string :: "int \<Rightarrow> string" where
  "to_string i = (if i < 0 then CHR ''-'' # to_string_nat (nat (- i)) else to_string_nat (nat i))"

text \<open>
  \<open>throw_bzip2_error\<close> builds the exception it throws. \<open>bzerror_result\<close> is what
  \<open>BZ2_bzerror(bzfile, &errnum)\<close> answers: the text, and the code it stores.
\<close>

definition throw_bzip2_error :: "env \<Rightarrow> BZFILE option \<Rightarrow> string \<Rightarrow> int \<Rightarrow> exn" where
  "throw_bzip2_error env bzfile msg bzlib_error =
     (let error = ''bzip2 error: '' @ msg @ '': '' in
      if bzlib_error \<noteq> 0 then Bzip2_error (error @ to_string bzlib_error) bzlib_error
      else case bzfile of
             None \<Rightarrow> Bzip2_error error bzlib_error
           | Some _ \<Rightarrow> Bzip2_error (error @ fst (bzerror_result env)) (snd (bzerror_result env)))"

section \<open>\<open>file_wrapper\<close>\<close>

text \<open>
  The wrapper is its field \<open>m_file\<close>. The constructor calls \<open>fdopen\<close>; when that
  fails it closes the descriptor, unless it is 1, and throws.
\<close>

definition file_wrapper_init :: "env \<Rightarrow> int \<Rightarrow> exn + FILE option" where
  "file_wrapper_init env fd =
     (if fdopen_succeeds env then Inr (Some (FILE fd))
      else Inl (System_error ''fdopen failed''))"

text \<open>
  \<open>file_wrapper::close\<close>: the new \<open>m_file\<close>, the calls made, and what the method does.
\<close>

definition file_wrapper_close :: "env \<Rightarrow> FILE option \<Rightarrow> unit result \<times> FILE option \<times> call list" where
  "file_wrapper_close env file =
     (case file of
        None \<Rightarrow> (Ok (), None, [])
      | Some wrapped_file \<Rightarrow>
          if fileno wrapped_file = 1 then (Ok (), None, [])
          else if fclose_result env \<noteq> 0
               then (Throw (System_error ''fclose failed''), None, [Fclose wrapped_file])
               else (Ok (), None, [Fclose wrapped_file]))"

text \<open>
  Both \<open>Bzip2Compressor\<close> and \<open>Bzip2Decompressor\<close> hold a \<open>file_wrapper\<close> and a
  \<open>BZFILE*\<close>; these fields, with the calls made so far, are declared once.
\<close>

record codec_handles =
  m_file :: "FILE option"
  m_bzfile :: "BZFILE option"
  calls :: "call list"

section \<open>\<open>Bzip2Compressor\<close>\<close>

text \<open>
  The base class \<open>Compressor\<close> (osmium/io/compression.hpp) is not among the sources:
  \<open>m_fsync\<close> stands for the setting its \<open>do_fsync()\<close> answers with, given to the
  constructor. \<open>std::size_t\<close> has 64 bits.
\<close>

record Bzip2Compressor = codec_handles +
  m_fsync :: bool
  m_file_size :: "64 word"

definition Bzip2Compressor_init :: "env \<Rightarrow> int \<Rightarrow> bool \<Rightarrow> exn + Bzip2Compressor" where
  "Bzip2Compressor_init env fd sync =
     (case file_wrapper_init env fd of
        Inl e \<Rightarrow> Inl e
      | Inr file \<Rightarrow>
          (case file of
             None \<Rightarrow> Inl (System_error ''fdopen failed'')
           | Some f \<Rightarrow>
               (case bzWriteOpen_result env of
                  (None, bzerror) \<Rightarrow> Inl (Bzip2_error ''bzip2 error: write open failed'' bzerror)
                | (Some h, bzerror) \<Rightarrow>
                    Inr \<lparr>m_file = Some f, m_bzfile = Some h, calls = [BZ2_bzWriteOpen f],
                         m_fsync = sync, m_file_size = 0\<rparr>)))"

definition Bzip2Compressor_write :: "env \<Rightarrow> string \<Rightarrow> Bzip2Compressor \<Rightarrow> unit result \<times> Bzip2Compressor" where
  "Bzip2Compressor_write env data s =
     (if \<not> length data < INT_MAX then (Assert_failed, s)
      else case m_bzfile s of
             None \<Rightarrow> (Assert_failed, s)
           | Some h \<Rightarrow>
               (let bzerror = bzWrite_result env;
                    s1 = s\<lparr>calls := calls s @ [BZ2_bzWrite h data]\<rparr>
                in if bzerror \<noteq> BZ_OK \<and> bzerror \<noteq> BZ_STREAM_END
                   then (Throw (throw_bzip2_error env (m_bzfile s1) ''write failed'' bzerror), s1)
                   else (Ok (), s1)))"

text \<open>
  \<open>osmium::io::detail::reliable_fsync\<close> (osmium/io/detail/read_write.hpp) is not among
  the sources: whether it returns or throws is an answer of the environment.
\<close>

definition reliable_fsync :: "env \<Rightarrow> int \<Rightarrow> call list \<Rightarrow> unit result \<times> call list" where
  "reliable_fsync env fd cs =
     (case fsync_result env of None \<Rightarrow> (Ok (), cs @ [Reliable_fsync fd])
                             | Some e \<Rightarrow> (Throw e, cs @ [Reliable_fsync fd]))"

definition Bzip2Compressor_close :: "env \<Rightarrow> Bzip2Compressor \<Rightarrow> unit result \<times> Bzip2Compressor" where
  "Bzip2Compressor_close env s =
     (case m_bzfile s of
        None \<Rightarrow> (Ok (), s)
      | Some h \<Rightarrow>
          (case bzWriteClose64_result env of
             (bzerror, nbytes_out_lo32, nbytes_out_hi32) \<Rightarrow>
               (let s1 = s\<lparr>calls := calls s @ [BZ2_bzWriteClose64 h], m_bzfile := None\<rparr>;
                    synced = (case m_file s1 of
                                None \<Rightarrow> (Ok (), s1)
                              | Some f \<Rightarrow>
                                  if m_fsync s1
                                  then (case reliable_fsync env (fileno f) (calls s1) of
                                          (r, cs) \<Rightarrow> (r, s1\<lparr>calls := cs\<rparr>))
                                  else (Ok (), s1))
                in case synced of
                     (Ok _, s2) \<Rightarrow>
                       (case file_wrapper_close env (m_file s2) of
                          (r, file, cs) \<Rightarrow>
                            (let s3 = s2\<lparr>m_file := file, calls := calls s2 @ cs\<rparr>
                             in case r of
                                  Ok _ \<Rightarrow>
                                    if bzerror \<noteq> BZ_OK
                                    then (Throw (Bzip2_error ''bzip2 error: write close failed'' bzerror), s3)
                                    else (Ok (), s3\<lparr>m_file_size :=
                                                       push_bit 32 (ucast nbytes_out_hi32) OR ucast nbytes_out_lo32\<rparr>)
                                | failure \<Rightarrow> (failure, s3)))
                   | (failure, s2) \<Rightarrow> (failure, s2))))"

definition file_size :: "Bzip2Compressor \<Rightarrow> 64 word" where
  "file_size s = m_file_size s"

text \<open>
  The destructors of the codec classes call \<open>close\<close> and drop what it throws; then
  the destructor of the member \<open>file_wrapper\<close> closes a file that is still held.
\<close>

definition file_wrapper_destroy :: "FILE option \<Rightarrow> call list" where
  "file_wrapper_destroy file = (case file of None \<Rightarrow> [] | Some f \<Rightarrow> [Fclose f])"

definition Bzip2Compressor_destroy :: "env \<Rightarrow> Bzip2Compressor \<Rightarrow> Bzip2Compressor" where
  "Bzip2Compressor_destroy env s =
     (let s1 = snd (Bzip2Compressor_close env s)
      in s1\<lparr>m_file := None, calls := calls s1 @ file_wrapper_destroy (m_file s1)\<rparr>)"

section \<open>\<open>Bzip2Decompressor\<close>\<close>

text \<open>
  \<open>m_want_buffered_pages_removed\<close> and \<open>m_offset\<close> are the fields of the base class
  \<open>Decompressor\<close> behind \<open>want_buffered_pages_removed()\<close> and \<open>set_offset()\<close>; the
  constant \<open>Decompressor::input_buffer_size\<close> is an argument of \<open>read\<close>. The base
  class (osmium/io/compression.hpp) is not among the sources.
\<close>

record Bzip2Decompressor = codec_handles +
  m_stream_end :: bool
  m_want_buffered_pages_removed :: bool
  m_offset :: "64 word"

definition Bzip2Decompressor_init :: "env \<Rightarrow> int \<Rightarrow> bool \<Rightarrow> exn + Bzip2Decompressor" where
  "Bzip2Decompressor_init env fd want_removed =
     (case file_wrapper_init env fd of
        Inl e \<Rightarrow> Inl e
      | Inr file \<Rightarrow>
          (case file of
             None \<Rightarrow> Inl (System_error ''fdopen failed'')
           | Some f \<Rightarrow>
               (case bzReadOpen_result env of
                  (None, bzerror) \<Rightarrow> Inl (Bzip2_error ''bzip2 error: read open failed'' bzerror)
                | (Some h, bzerror) \<Rightarrow>
                    Inr \<lparr>m_file = Some f, m_bzfile = Some h, calls = [BZ2_bzReadOpen f []],
                         m_stream_end = False, m_want_buffered_pages_removed = want_removed,
                         m_offset = 0\<rparr>)))"

definition set_offset :: "env \<Rightarrow> Bzip2Decompressor \<Rightarrow> Bzip2Decompressor" where
  "set_offset env s = s\<lparr>m_offset := word_of_int (ftell_after env)\<rparr>"

text \<open>
  The block of \<open>read\<close> under \<^verbatim>\<open>if (bzerror == BZ_STREAM_END)\<close>, for the file \<open>f\<close> and
  the stream \<open>h\<close> that \<open>read\<close> holds. The unused bytes that \<open>BZ2_bzReadGetUnused\<close>
  reports are a string, \<open>num_unused\<close> its length.
\<close>

definition stream_end_reached :: "env \<Rightarrow> FILE \<Rightarrow> BZFILE \<Rightarrow> Bzip2Decompressor \<Rightarrow> unit result \<times> Bzip2Decompressor" where
  "stream_end_reached env f h s =
     (if \<not> feof_result env then
        (case bzReadGetUnused_result env of
           (bzerror, unused) \<Rightarrow>
             (let s1 = s\<lparr>calls := calls s @ [BZ2_bzReadGetUnused h]\<rparr>
              in if bzerror \<noteq> BZ_OK
                 then (Throw (throw_bzip2_error env (m_bzfile s1) ''get unused failed'' bzerror), s1)
                 else if length unused \<noteq> 0 then
                   (let s2 = s1\<lparr>calls := calls s1 @ [BZ2_bzReadClose h]\<rparr>;
                        bzerror = bzReadClose_result env
                    in if bzerror \<noteq> BZ_OK
                       then (Throw (Bzip2_error ''bzip2 error: read close failed'' bzerror), s2)
                       else if \<not> length unused < INT_MAX then (Assert_failed, s2)
                       else (case bzReadOpen_result env of
                               (bzfile, bzerror) \<Rightarrow>
                                 (let s3 = s2\<lparr>calls := calls s2 @ [BZ2_bzReadOpen f unused],
                                              m_bzfile := bzfile\<rparr>
                                  in if bzfile = None
                                     then (Throw (Bzip2_error ''bzip2 error: read open failed'' bzerror), s3)
                                     else (Ok (), s3))))
                 else
                   (let s2 = s1\<lparr>calls := calls s1 @ [BZ2_bzReadClose h]\<rparr>;
                        bzerror = bzReadClose_result env
                    in if bzerror \<noteq> BZ_OK
                       then (Throw (Bzip2_error ''bzip2 error: read close failed'' bzerror), s2)
                       else (case bzReadOpen_result env of
                               (bzfile, bzerror) \<Rightarrow>
                                 (let s3 = s2\<lparr>calls := calls s2 @ [BZ2_bzReadOpen f []],
                                              m_bzfile := bzfile\<rparr>
                                  in if bzfile = None \<or> bzerror \<noteq> BZ_OK
                                     then (Ok (), s3\<lparr>m_stream_end := True, m_bzfile := None\<rparr>)
                                     else (Ok (), s3))))))
      else (Ok (), s\<lparr>m_stream_end := True\<rparr>))"

text \<open>
  \<open>read\<close>. The bytes that \<open>BZ2_bzRead\<close> decoded are a string, \<open>nread\<close> its length,
  at most the size of the buffer.
\<close>

definition Bzip2Decompressor_read :: "nat \<Rightarrow> env \<Rightarrow> Bzip2Decompressor \<Rightarrow> string result \<times> Bzip2Decompressor" where
  "Bzip2Decompressor_read input_buffer_size env s =
     (case m_file s of
        None \<Rightarrow> (Undefined, s)
      | Some f \<Rightarrow>
          (let offset = ftell_before env;
               s0 = (if offset > 0 \<and> m_want_buffered_pages_removed s
                     then s\<lparr>calls := calls s @ [Remove_buffered_pages (fileno f) (Some (word_of_int offset))]\<rparr>
                     else s)
           in case m_bzfile s0 of
                None \<Rightarrow> (Assert_failed, s0)
              | Some h \<Rightarrow>
                  if \<not> m_stream_end s0 then
                    (if \<not> input_buffer_size < INT_MAX then (Assert_failed, s0)
                     else case bzRead_result env of
                            (bzerror, decoded) \<Rightarrow>
                              (let s1 = s0\<lparr>calls := calls s0 @ [BZ2_bzRead h]\<rparr>;
                                   buffer = take input_buffer_size decoded
                               in if bzerror \<noteq> BZ_OK \<and> bzerror \<noteq> BZ_STREAM_END
                                  then (Throw (throw_bzip2_error env (m_bzfile s1) ''read failed'' bzerror), s1)
                                  else if bzerror = BZ_STREAM_END
                                  then (case stream_end_reached env f h s1 of
                                          (Ok _, s2) \<Rightarrow> (Ok buffer, set_offset env s2)
                                        | (Throw e, s2) \<Rightarrow> (Throw e, s2)
                                        | (Assert_failed, s2) \<Rightarrow> (Assert_failed, s2)
                                        | (Undefined, s2) \<Rightarrow> (Undefined, s2))
                                  else (Ok buffer, set_offset env s1)))
                  else (Ok [], set_offset env s0)))"

definition Bzip2Decompressor_close :: "env \<Rightarrow> Bzip2Decompressor \<Rightarrow> unit result \<times> Bzip2Decompressor" where
  "Bzip2Decompressor_close env s =
     (case m_bzfile s of
        None \<Rightarrow> (Ok (), s)
      | Some h \<Rightarrow>
          (case m_file s of
             None \<Rightarrow> (Undefined, s)
           | Some f \<Rightarrow>
               (let s0 = (if m_want_buffered_pages_removed s
                          then s\<lparr>calls := calls s @ [Remove_buffered_pages (fileno f) None]\<rparr>
                          else s);
                    bzerror = bzReadClose_result env;
                    s1 = s0\<lparr>calls := calls s0 @ [BZ2_bzReadClose h], m_bzfile := None\<rparr>
                in case file_wrapper_close env (m_file s1) of
                     (r, file, cs) \<Rightarrow>
                       (let s2 = s1\<lparr>m_file := file, calls := calls s1 @ cs\<rparr>
                        in case r of
                             Ok _ \<Rightarrow>
                               if bzerror \<noteq> BZ_OK
                               then (Throw (Bzip2_error ''bzip2 error: read close failed'' bzerror), s2)
                               else (Ok (), s2)
                           | failure \<Rightarrow> (failure, s2)))))"

definition Bzip2Decompressor_destroy :: "env \<Rightarrow> Bzip2Decompressor \<Rightarrow> Bzip2Decompressor" where
  "Bzip2Decompressor_destroy env s =
     (let s1 = snd (Bzip2Decompressor_close env s)
      in s1\<lparr>m_file := None, calls := calls s1 @ file_wrapper_destroy (m_file s1)\<rparr>)"

section \<open>\<open>Bzip2BufferDecompressor\<close>\<close>

text \<open>
  The \<open>bz_stream\<close> of libbz2, as far as the class depends on it: the input still
  available, and whether \<open>state\<close> points to the decoder's memory (set up by
  \<open>BZ2_bzDecompressInit\<close>). \<open>BZ2_bzDecompressEnd\<close> is the function of libbz2, after
  its manual: it releases that memory and returns \<open>BZ_OK\<close>, or returns
  \<open>BZ_PARAM_ERROR\<close> and does nothing when there is none.
\<close>

record bz_stream =
  avail_in :: "32 word"
  state_allocated :: bool

definition BZ2_bzDecompressEnd :: "bz_stream \<Rightarrow> int \<times> bz_stream" where
  "BZ2_bzDecompressEnd strm =
     (if state_allocated strm then (BZ_OK, strm\<lparr>state_allocated := False\<rparr>)
      else (BZ_PARAM_ERROR, strm))"

text \<open>
  \<open>m_buffer\<close> points to memory of the caller: \<open>None\<close> is the null pointer. The bytes
  that one \<open>BZ2_bzDecompress\<close> writes are a string; \<open>next_out - output.data()\<close> is its
  length, at most the 10240 bytes offered. The call takes its input from the stream:
  \<open>avail_in\<close> goes down by the number of bytes it consumed.
\<close>

record Bzip2BufferDecompressor =
  m_buffer :: "string option"
  m_buffer_size :: nat
  m_bzstream :: bz_stream

definition Bzip2BufferDecompressor_init :: "env \<Rightarrow> string option \<Rightarrow> nat \<Rightarrow> Bzip2BufferDecompressor result" where
  "Bzip2BufferDecompressor_init env buffer sz =
     (if \<not> sz < UINT_MAX then Assert_failed
      else (let result = bzDecompressInit_result env
            in if result \<noteq> BZ_OK
               then Throw (Bzip2_error ''bzip2 error: decompression init failed: '' result)
               else Ok \<lparr>m_buffer = buffer, m_buffer_size = sz,
                        m_bzstream = \<lparr>avail_in = of_nat sz, state_allocated = True\<rparr>\<rparr>))"

definition Bzip2BufferDecompressor_read :: "env \<Rightarrow> Bzip2BufferDecompressor \<Rightarrow> string result \<times> Bzip2BufferDecompressor" where
  "Bzip2BufferDecompressor_read env s =
     (case m_buffer s of
        None \<Rightarrow> (Ok [], s)
      | Some _ \<Rightarrow>
          (case bzDecompress_result env of
             (result, written, consumed) \<Rightarrow>
               (let buffer_size = 10240;
                    s0 = s\<lparr>m_bzstream := (m_bzstream s)\<lparr>avail_in := avail_in (m_bzstream s) - consumed\<rparr>\<rparr>;
                    s1 = (if result \<noteq> BZ_OK then s0\<lparr>m_buffer := None, m_buffer_size := 0\<rparr> else s0)
                in if result \<noteq> BZ_OK \<and> result \<noteq> BZ_STREAM_END
                   then (Throw (Bzip2_error ''bzip2 error: decompress failed: '' result), s1)
                   else (Ok (take buffer_size written), s1))))"

definition Bzip2BufferDecompressor_close :: "Bzip2BufferDecompressor \<Rightarrow> unit result \<times> Bzip2BufferDecompressor" where
  "Bzip2BufferDecompressor_close s =
     (Ok (), s\<lparr>m_bzstream := snd (BZ2_bzDecompressEnd (m_bzstream s))\<rparr>)"

definition Bzip2BufferDecompressor_destroy :: "Bzip2BufferDecompressor \<Rightarrow> Bzip2BufferDecompressor" where
  "Bzip2BufferDecompressor_destroy s = snd (Bzip2BufferDecompressor_close s)"

section \<open>Observations and example inputs\<close>

text \<open>
  The seeds of the \<open>BZ2_bzReadOpen\<close> calls that were made between two states of a
  decompressor: the bytes each new decode stream was given to start from.
\<close>

fun open_seed :: "call \<Rightarrow> string option" where
  "open_seed (BZ2_bzReadOpen f unused) = Some unused"
| "open_seed _ = None"

definition reopen_seeds :: "Bzip2Decompressor \<Rightarrow> Bzip2Decompressor \<Rightarrow> string list" where
  "reopen_seeds s s' = List.map_filter open_seed (drop (length (calls s)) (calls s'))"

text \<open>An environment in which every call succeeds and the file is at its end.\<close>

definition quiet_env :: env where
  "quiet_env =
     \<lparr>fdopen_succeeds = True, bzWriteOpen_result = (Some 0, BZ_OK), bzWrite_result = BZ_OK,
      bzWriteClose64_result = (BZ_OK, 0, 0), fsync_result = None, fclose_result = 0,
      ftell_before = 0, ftell_after = 0, bzRead_result = (BZ_STREAM_END, []),
      feof_result = True, bzReadGetUnused_result = (BZ_OK, []), bzReadClose_result = BZ_OK,
      bzReadOpen_result = (Some 0, BZ_OK), bzerror_result = ([], 0),
      bzDecompressInit_result = BZ_OK, bzDecompress_result = (BZ_STREAM_END, [], 0)\<rparr>"

text \<open>
  Two compressors as the constructor leaves them, one writing to standard output and one
  to a file with \<open>fsync\<close> requested, and an environment in which finalizing the stream
  fails with \<open>BZ_IO_ERROR\<close>.
\<close>

definition stdout_compressor :: Bzip2Compressor where
  "stdout_compressor =
     \<lparr>m_file = Some (FILE 1), m_bzfile = Some 0, calls = [BZ2_bzWriteOpen (FILE 1)],
      m_fsync = False, m_file_size = 0\<rparr>"

definition file_compressor :: Bzip2Compressor where
  "file_compressor =
     \<lparr>m_file = Some (FILE 3), m_bzfile = Some 0, calls = [BZ2_bzWriteOpen (FILE 3)],
      m_fsync = True, m_file_size = 0\<rparr>"

definition failing_finalize_env :: env where
  "failing_finalize_env = quiet_env\<lparr>bzWriteClose64_result := (BZ_IO_ERROR, 0, 0)\<rparr>"

text \<open>
  A decompressor as the constructor leaves it, and three environments for one \<open>read\<close>
  each. In the first the codec reports the end of a stream without having decoded a byte
  (the stream is the compressed form of no data), the file is not at its end, and the
  codec holds bytes it has read past that stream: the start of a second stream. In the
  second the codec decodes the last bytes of a stream and the file is at its end. In the
  third the file is at its end as well, but the codec holds bytes of a next stream: the
  whole file went into the codec's buffer at once.
\<close>

definition file_decompressor :: Bzip2Decompressor where
  "file_decompressor =
     \<lparr>m_file = Some (FILE 3), m_bzfile = Some 0, calls = [BZ2_bzReadOpen (FILE 3) []],
      m_stream_end = False, m_want_buffered_pages_removed = False, m_offset = 0\<rparr>"

definition empty_stream_env :: env where
  "empty_stream_env =
     quiet_env\<lparr>bzRead_result := (BZ_STREAM_END, []), feof_result := False,
                bzReadGetUnused_result := (BZ_OK, ''BZh9''), bzReadOpen_result := (Some 1, BZ_OK)\<rparr>"

definition last_stream_env :: env where
  "last_stream_env = quiet_env\<lparr>bzRead_result := (BZ_STREAM_END, ''<osm/>''), feof_result := True\<rparr>"

definition leftover_at_eof_env :: env where
  "leftover_at_eof_env =
     quiet_env\<lparr>bzRead_result := (BZ_STREAM_END, ''<osm/>''), feof_result := True,
                bzReadGetUnused_result := (BZ_OK, ''BZh9'')\<rparr>"

section \<open>Properties of \<open>queue_wrapper\<close>\<close>

text \<open>
  Claim C3. A wrapper in the DONE state answers every \<open>pop\<close> with the sentinel \<open>T{}\<close>
  and stays exactly as it was: the flag and the channel are unchanged, so no slot is
  taken, and the call returns even when the channel is empty, where \<open>wait_and_pop\<close>
  would wait. Any number of further calls gives the same.
\<close>

theorem pop_done_returns_sentinel:
  "m_done w \<Longrightarrow> pop dflt is_end w = (Returned dflt, w)
     \<and> pop dflt is_end (snd (pop dflt is_end w)) = (Returned dflt, w)
     \<and> m_queue (snd (pop dflt is_end w)) = m_queue w
     \<and> m_done (snd (pop dflt is_end w))"
  by (simp add: pop_def)

theorem pop_done_returns_sentinel_witness:
  "m_done \<lparr>m_queue = [Inr ''x''], m_done = True\<rparr>
   \<and> pop [] (\<lambda>d. d = []) \<lparr>m_queue = [Inr ''x''], m_done = True\<rparr>
       = (Returned [], \<lparr>m_queue = [Inr ''x''], m_done = True\<rparr>)"
  using pop_done_returns_sentinel [of "\<lparr>m_queue = [Inr ''x''], m_done = True\<rparr>" "[]" "\<lambda>d. d = []"]
  by simp

lemma drain_done: "m_done w \<Longrightarrow> drain dflt is_end w = Some w"
  by (simp add: drain.simps)

lemma drain_empty: "\<not> m_done w \<Longrightarrow> m_queue w = [] \<Longrightarrow> drain dflt is_end w = None"
  by (simp add: drain.simps pop_def wait_and_pop_def)

lemma drain_step:
  assumes "\<not> m_done w" and "m_queue w = f # q"
  shows "drain dflt is_end w =
     (if is_sentinel is_end f then Some (w\<lparr>m_queue := q, m_done := True\<rparr>)
      else drain dflt is_end (w\<lparr>m_queue := q\<rparr>))"
proof -
  have same: "w\<lparr>m_queue := q, m_done := False\<rparr> = w\<lparr>m_queue := q\<rparr>"
    using assms(1) by simp
  show ?thesis
    using assms
    by (subst drain.simps)
       (simp add: pop_def wait_and_pop_def check_is_done_def is_sentinel_def drain_done same
             split: sum.splits)
qed

lemma drain_queue:
  "m_queue w = q \<Longrightarrow> \<not> m_done w \<Longrightarrow>
   drain dflt is_end w =
     (if list_ex (is_sentinel is_end) q
      then Some (w\<lparr>m_queue := tl (dropWhile (\<lambda>f. \<not> is_sentinel is_end f) q), m_done := True\<rparr>)
      else None)"
proof (induction q arbitrary: w)
  case Nil
  then show ?case by (simp add: drain_empty)
next
  case (Cons f q)
  from Cons.prems have step: "drain dflt is_end w =
     (if is_sentinel is_end f then Some (w\<lparr>m_queue := q, m_done := True\<rparr>)
      else drain dflt is_end (w\<lparr>m_queue := q\<rparr>))"
    by (intro drain_step) simp_all
  show ?case
  proof (cases "is_sentinel is_end f")
    case True
    with step show ?thesis by simp
  next
    case False
    with step Cons.IH [of "w\<lparr>m_queue := q\<rparr>"] Cons.prems show ?thesis by simp
  qed
qed

text \<open>
  Claim C4. \<open>drain\<close> calls \<open>pop\<close> until the wrapper is DONE and drops every failure
  a popped slot rethrows: slots holding an exception are passed over like data, and
  \<open>drain\<close> has no failure to give back. Whenever it returns, the wrapper is DONE, and
  the channel holds what followed the first sentinel. It returns unless the wrapper is
  active and the channel never receives a sentinel, where \<open>pop\<close> waits for the producer.
  The destructor is \<open>drain\<close>.
\<close>

theorem drain_until_done:
  "(\<forall>w'. drain dflt is_end w = Some w' \<longrightarrow> m_done w')
   \<and> (drain dflt is_end w = None \<longleftrightarrow> \<not> m_done w \<and> \<not> list_ex (is_sentinel is_end) (m_queue w))
   \<and> (\<not> m_done w \<and> list_ex (is_sentinel is_end) (m_queue w) \<longrightarrow>
        drain dflt is_end w
          = Some (w\<lparr>m_queue := tl (dropWhile (\<lambda>f. \<not> is_sentinel is_end f) (m_queue w)),
                    m_done := True\<rparr>))
   \<and> queue_wrapper_destroy dflt is_end w = drain dflt is_end w"
proof (cases "m_done w")
  case True
  then show ?thesis by (simp add: drain_done queue_wrapper_destroy_def)
next
  case False
  then show ?thesis
    using drain_queue [of w "m_queue w" dflt is_end]
    by (auto simp: queue_wrapper_destroy_def)
qed

theorem drain_until_done_witness:
  "drain [] string_empty
     \<lparr>m_queue = [Inr ''A'', Inl (Other_failure ''boom''), Inr [], Inr ''B''], m_done = False\<rparr>
   = Some \<lparr>m_queue = [Inr ''B''], m_done = True\<rparr>
   \<and> drain [] string_empty \<lparr>m_queue = [Inr ''A'', Inl (Other_failure ''boom'')], m_done = False\<rparr> = None"
  using drain_until_done [of "[]" string_empty
     "\<lparr>m_queue = [Inr ''A'', Inl (Other_failure ''boom''), Inr [], Inr ''B''], m_done = False\<rparr>"]
    drain_until_done [of "[]" string_empty
     "\<lparr>m_queue = [Inr ''A'', Inl (Other_failure ''boom'')], m_done = False\<rparr>"]
  by (simp add: is_sentinel_def string_empty_def)

section \<open>Properties of \<open>ReadThreadManager\<close>\<close>

lemma read_loop_pushes:
  "read_loop rd done_at fuel i d q = Some (r, d', q') \<Longrightarrow>
   \<exists>cs. q' = q @ map Inr cs \<and> [] \<notin> set cs"
proof (induction fuel arbitrary: i d q)
  case 0
  then show ?case by simp
next
  case (Suc fuel)
  show ?case
  proof (cases "done_at i")
    case True
    with Suc.prems have "q' = q" by simp
    then show ?thesis by (intro exI [of _ "[]"]) simp
  next
    case False
    obtain res d1 where rd: "rd d = (res, d1)" by (cases "rd d")
    show ?thesis
    proof (cases res)
      case (Inl e)
      with Suc.prems False rd have "q' = q" by simp
      then show ?thesis by (intro exI [of _ "[]"]) simp
    next
      case (Inr data)
      show ?thesis
      proof (cases "data = []")
        case True
        with Suc.prems False rd Inr have "q' = q" by simp
        then show ?thesis by (intro exI [of _ "[]"]) simp
      next
        case nonempty: False
        with Suc.prems False rd Inr
        have "read_loop rd done_at fuel (Suc i) d1 (add_to_queue q data) = Some (r, d', q')"
          by simp
        from Suc.IH [OF this] obtain cs where
          "q' = add_to_queue q data @ map Inr cs" "[] \<notin> set cs" by blast
        with nonempty show ?thesis
          by (intro exI [of _ "data # cs"]) (simp add: add_to_queue_def push_def)
      qed
    qed
  qed
qed

lemma read_loop_stops:
  "i \<le> j \<Longrightarrow> done_at j \<Longrightarrow> j - i < fuel \<Longrightarrow> read_loop rd done_at fuel i d q \<noteq> None"
proof (induction fuel arbitrary: i d q)
  case 0
  then show ?case by simp
next
  case (Suc fuel)
  show ?case
  proof (cases "done_at i")
    case True
    then show ?thesis by simp
  next
    case False
    with Suc.prems have "i \<noteq> j" by auto
    with Suc.prems have "Suc i \<le> j" "j - Suc i < fuel" by simp_all
    from Suc.IH [OF this(1) Suc.prems(2) this(2)] False show ?thesis
      by (simp split: prod.splits sum.splits)
  qed
qed

lemma try_block_pushes:
  assumes "try_block rd cl done_at fuel d q = Some (r, d', q')"
  shows "\<exists>cs. q' = q @ map Inr cs \<and> [] \<notin> set cs"
proof -
  from assms obtain r0 d0 where "read_loop rd done_at fuel 0 d q = Some (r0, d0, q')"
    by (auto simp: try_block_def split: option.splits prod.splits)
  then show ?thesis by (rule read_loop_pushes)
qed

lemma run_in_thread_shape:
  assumes "run_in_thread rd cl done_at fuel d q = Some (d', q')"
  shows "\<exists>cs r. [] \<notin> set cs
           \<and> try_block rd cl done_at fuel d q = Some (r, d', q @ map Inr cs)
           \<and> q' = q @ map Inr cs @ (case r of None \<Rightarrow> [] | Some e \<Rightarrow> [Inl e]) @ [Inr []]"
proof -
  from assms obtain r q1 where tb: "try_block rd cl done_at fuel d q = Some (r, d', q1)"
    and q': "q' = add_to_queue (case r of None \<Rightarrow> q1 | Some e \<Rightarrow> add_to_queue_exception q1 e) []"
    by (auto simp: run_in_thread_def split: option.splits prod.splits)
  from try_block_pushes [OF tb] obtain cs where cs: "q1 = q @ map Inr cs" "[] \<notin> set cs"
    by blast
  with tb q' show ?thesis
    by (intro exI [of _ cs] exI [of _ r])
       (simp add: add_to_queue_def add_to_queue_exception_def push_def split: option.splits)
qed

lemma count_no_sentinel: "[] \<notin> set cs \<Longrightarrow> count_list (map Inr cs) (Inr [] :: string future) = 0"
  by (induction cs) auto

lemma run_in_thread_stops:
  assumes "done_at j"
  shows "run_in_thread rd cl done_at (Suc j) d q \<noteq> None"
proof -
  have "read_loop rd done_at (Suc j) 0 d q \<noteq> None"
    using assms by (intro read_loop_stops [of 0 j]) simp_all
  then show ?thesis
    by (auto simp: run_in_thread_def try_block_def simp del: read_loop.simps
             split: option.splits prod.splits)
qed

lemma read_loop_more_fuel:
  "read_loop rd done_at fuel i d q = Some r \<Longrightarrow> read_loop rd done_at (fuel + k) i d q = Some r"
proof (induction fuel arbitrary: i d q)
  case 0
  then show ?case by simp
next
  case (Suc fuel)
  show ?case
  proof (cases "done_at i")
    case True
    with Suc.prems show ?thesis by simp
  next
    case False
    obtain res d1 where rd: "rd d = (res, d1)" by (cases "rd d")
    show ?thesis
    proof (cases res)
      case (Inl e)
      with Suc.prems False rd show ?thesis by simp
    next
      case (Inr data)
      show ?thesis
      proof (cases "data = []")
        case True
        with Suc.prems False rd Inr show ?thesis by simp
      next
        case nonempty: False
        with Suc.prems False rd Inr
        have "read_loop rd done_at fuel (Suc i) d1 (add_to_queue q data) = Some r" by simp
        from Suc.IH [OF this] False rd Inr nonempty show ?thesis by simp
      qed
    qed
  qed
qed

lemma run_in_thread_more_fuel:
  assumes "run_in_thread rd cl done_at fuel d q = Some r"
  shows "run_in_thread rd cl done_at (fuel + k) d q = Some r"
proof -
  from assms obtain l where l: "read_loop rd done_at fuel 0 d q = Some l"
    by (cases "read_loop rd done_at fuel 0 d q")
       (simp_all add: run_in_thread_def try_block_def)
  from read_loop_more_fuel [OF l, of k] l assms show ?thesis
    by (simp add: run_in_thread_def try_block_def)
qed

lemma pop_n_add:
  "pop_n dflt is_end (m + n) w =
     (case pop_n dflt is_end m w of
        (rs, w') \<Rightarrow> (case pop_n dflt is_end n w' of (rs', w'') \<Rightarrow> (rs @ rs', w'')))"
  by (induction m arbitrary: w) (auto split: prod.splits)

lemma pop_n_chunks:
  "[] \<notin> set cs \<Longrightarrow>
   pop_n [] string_empty (length cs) \<lparr>m_queue = map Inr cs @ rest, m_done = False\<rparr>
     = (map Returned cs, \<lparr>m_queue = rest, m_done = False\<rparr>)"
  by (induction cs)
     (auto simp: pop_def wait_and_pop_def check_is_done_def string_empty_def)

lemma pop_failure_then_sentinel:
  "pop_n [] string_empty 2 \<lparr>m_queue = [Inl e, Inr []], m_done = False\<rparr>
     = ([Raised e, Returned []], \<lparr>m_queue = [], m_done = True\<rparr>)"
  by (simp add: numeral_2_eq_2 pop_def wait_and_pop_def check_is_done_def string_empty_def)

lemma read_loop_counts:
  "read_loop (counting_read rd) done_at fuel i (n, d) q = Some (r, (n', d'), q') \<Longrightarrow>
   i \<le> j \<Longrightarrow> done_at j \<Longrightarrow>
   n \<le> n' \<and> n' \<le> n + (j - i) \<and> length q' \<le> length q + (j - i)"
proof (induction fuel arbitrary: i n d q)
  case 0
  then show ?case by simp
next
  case (Suc fuel)
  show ?case
  proof (cases "done_at i")
    case True
    with Suc.prems have "n' = n" "q' = q" by simp_all
    then show ?thesis by simp
  next
    case False
    with Suc.prems have lt: "Suc i \<le> j" by (cases "i = j") auto
    obtain res d1 where rd: "rd d = (res, d1)" by (cases "rd d")
    show ?thesis
    proof (cases res)
      case (Inl e)
      with Suc.prems False rd lt show ?thesis by (auto simp: counting_read_def)
    next
      case (Inr data)
      show ?thesis
      proof (cases "data = []")
        case True
        with Suc.prems False rd Inr lt show ?thesis by (auto simp: counting_read_def)
      next
        case nonempty: False
        with Suc.prems False rd Inr
        have "read_loop (counting_read rd) done_at fuel (Suc i) (Suc n, d1) (add_to_queue q data)
                = Some (r, (n', d'), q')"
          by (simp add: counting_read_def)
        from Suc.IH [OF this lt Suc.prems(3)]
        have "Suc n \<le> n'" "n' \<le> Suc n + (j - Suc i)"
          "length q' \<le> Suc (length q) + (j - Suc i)"
          by (simp_all add: add_to_queue_def push_def)
        with lt show ?thesis by linarith
      qed
    qed
  qed
qed

lemma run_in_thread_counts:
  assumes "run_in_thread (counting_read rd) (counting_close cl) done_at fuel (n, d) q = Some ((n', d'), q')"
    and "done_at j"
  shows "n \<le> n' \<and> n' \<le> n + j"
proof -
  from assms(1) obtain r nd1 q1 where
    tb: "try_block (counting_read rd) (counting_close cl) done_at fuel (n, d) q = Some (r, (n', d'), q1)"
    by (auto simp: run_in_thread_def split: option.splits prod.splits)
  then obtain r0 n0 d0 where
    loop: "read_loop (counting_read rd) done_at fuel 0 (n, d) q = Some (r0, (n0, d0), q1)"
    and n0: "n' = n0"
    by (auto simp: try_block_def counting_close_def split: option.splits prod.splits)
  from read_loop_counts [OF loop _ assms(2)] n0 show ?thesis by simp
qed

lemma read_loop_prefix:
  assumes "read_n rd n d = (map Inr cs, dn)" and "[] \<notin> set cs"
    and "\<forall>i<n. \<not> done_at (i0 + i)"
  shows "read_loop rd done_at (n + fuel) i0 d q
           = read_loop rd done_at fuel (i0 + n) dn (q @ map Inr cs)"
  using assms
proof (induction n arbitrary: i0 d q cs)
  case 0
  then show ?case by simp
next
  case (Suc n)
  obtain r d1 where rd: "rd d = (r, d1)" by (cases "rd d")
  obtain rs d2 where rn: "read_n rd n d1 = (rs, d2)" by (cases "read_n rd n d1")
  from Suc.prems(1) rd rn have eq: "r # rs = map Inr cs" and dn: "d2 = dn" by simp_all
  then obtain c cs' where cs: "cs = c # cs'" "r = Inr c" "rs = map Inr cs'"
    by (cases cs) auto
  from Suc.prems(2) cs have c: "c \<noteq> []" and cs': "[] \<notin> set cs'" by auto
  from Suc.prems(3) have first: "\<not> done_at i0" and
    later: "\<forall>i<n. \<not> done_at (Suc i0 + i)"
    by (auto dest: spec [of _ 0] spec [of _ "Suc _"])
  have "read_n rd n d1 = (map Inr cs', dn)" using rn cs dn by simp
  from Suc.IH [OF this cs' later, of "add_to_queue q c"] rd cs c first
  show ?case by (simp add: add_to_queue_def push_def)
qed

lemma read_loop_ends:
  assumes "read_n rd n d = (map Inr cs, dn)" and "[] \<notin> set cs" and "\<forall>i<n. \<not> done_at i"
  shows "read_loop rd done_at (Suc n + k) 0 d q =
     (if done_at n then Some (None, dn, q @ map Inr cs)
      else case rd dn of
             (Inl e, d') \<Rightarrow> Some (Some e, d', q @ map Inr cs)
           | (Inr data, d') \<Rightarrow>
               if data = [] then Some (None, d', q @ map Inr cs)
               else read_loop rd done_at k (Suc n) d' (add_to_queue (q @ map Inr cs) data))"
proof -
  have "read_loop rd done_at (n + Suc k) 0 d q = read_loop rd done_at (Suc k) (0 + n) dn (q @ map Inr cs)"
    using assms by (intro read_loop_prefix) simp_all
  then show ?thesis by simp
qed

lemma run_in_thread_ends:
  assumes "read_n rd n d = (map Inr cs, dn)" and "[] \<notin> set cs" and "\<forall>i<n. \<not> done_at i"
  shows "done_at n \<Longrightarrow>
           run_in_thread rd cl done_at (Suc n + k) d q
             = Some (snd (cl dn), q @ map Inr cs @ failure_slot (fst (cl dn)) @ [Inr []])"
    and "\<not> done_at n \<Longrightarrow> rd dn = (Inr [], d') \<Longrightarrow>
           run_in_thread rd cl done_at (Suc n + k) d q
             = Some (snd (cl d'), q @ map Inr cs @ failure_slot (fst (cl d')) @ [Inr []])"
    and "\<not> done_at n \<Longrightarrow> rd dn = (Inl e, d') \<Longrightarrow>
           run_in_thread rd cl done_at (Suc n + k) d q
             = Some (d', q @ map Inr cs @ [Inl e, Inr []])"
proof -
  note ends = read_loop_ends [OF assms, of k q]
  show "done_at n \<Longrightarrow>
           run_in_thread rd cl done_at (Suc n + k) d q
             = Some (snd (cl dn), q @ map Inr cs @ failure_slot (fst (cl dn)) @ [Inr []])"
    unfolding run_in_thread_def try_block_def ends
    by (cases "cl dn")
       (simp add: add_to_queue_def add_to_queue_exception_def push_def failure_slot_def
             split: option.splits)
  show "\<not> done_at n \<Longrightarrow> rd dn = (Inr [], d') \<Longrightarrow>
           run_in_thread rd cl done_at (Suc n + k) d q
             = Some (snd (cl d'), q @ map Inr cs @ failure_slot (fst (cl d')) @ [Inr []])"
    unfolding run_in_thread_def try_block_def ends
    by (cases "cl d'")
       (simp add: add_to_queue_def add_to_queue_exception_def push_def failure_slot_def
             split: option.splits)
  show "\<not> done_at n \<Longrightarrow> rd dn = (Inl e, d') \<Longrightarrow>
           run_in_thread rd cl done_at (Suc n + k) d q
             = Some (d', q @ map Inr cs @ [Inl e, Inr []])"
    unfolding run_in_thread_def try_block_def ends
    by (simp add: add_to_queue_def add_to_queue_exception_def push_def)
qed

text \<open>
  Claim C1. Take a run whose first \<open>n\<close> reads give the non-empty chunks \<open>cs\<close> and whose
  loop condition finds the flag unset \<open>n\<close> times. The run comes to its end, with
  \<open>Suc n\<close> units of fuel or more, in each of the three ways the loop can be left: the
  next evaluation of the condition finds the flag set; the next read gives the empty
  string; the next read throws. In the first two \<open>close\<close> is called, and a failure it
  throws is pushed; in the third the failure of the read is pushed. Each time the channel
  has received the chunks, at most one failed slot, and the empty string as the last slot.
  For every run that comes to its end, however it does: it has pushed at least one slot,
  the last slot it pushed is the empty string, and no other slot it pushed is; and what
  it has done does not depend on the fuel it was given.
\<close>

theorem run_in_thread_one_sentinel_last:
  assumes "read_n rd n d = (map Inr cs, dn)" and "[] \<notin> set cs" and "\<forall>i<n. \<not> done_at i"
  shows "(done_at n \<longrightarrow>
            run_in_thread rd cl done_at (Suc n + k) d q
              = Some (snd (cl dn), q @ map Inr cs @ failure_slot (fst (cl dn)) @ [Inr []]))
     \<and> (\<not> done_at n \<and> rd dn = (Inr [], d') \<longrightarrow>
            run_in_thread rd cl done_at (Suc n + k) d q
              = Some (snd (cl d'), q @ map Inr cs @ failure_slot (fst (cl d')) @ [Inr []]))
     \<and> (\<not> done_at n \<and> rd dn = (Inl e, d') \<longrightarrow>
            run_in_thread rd cl done_at (Suc n + k) d q
              = Some (d', q @ map Inr cs @ [Inl e, Inr []]))
     \<and> (\<forall>fuel d'' q'. run_in_thread rd cl done_at fuel d q = Some (d'', q') \<longrightarrow>
          (\<exists>pushed. q' = q @ pushed \<and> pushed \<noteq> [] \<and> last pushed = Inr []
             \<and> count_list pushed (Inr []) = 1))
     \<and> (\<forall>fuel r. run_in_thread rd cl done_at fuel d q = Some r \<longrightarrow>
          run_in_thread rd cl done_at (fuel + k) d q = Some r)"
proof (intro conjI allI impI)
  assume "done_at n"
  then show "run_in_thread rd cl done_at (Suc n + k) d q
              = Some (snd (cl dn), q @ map Inr cs @ failure_slot (fst (cl dn)) @ [Inr []])"
    by (rule run_in_thread_ends(1) [OF assms])
next
  assume "\<not> done_at n \<and> rd dn = (Inr [], d')"
  then show "run_in_thread rd cl done_at (Suc n + k) d q
              = Some (snd (cl d'), q @ map Inr cs @ failure_slot (fst (cl d')) @ [Inr []])"
    using run_in_thread_ends(2) [OF assms] by blast
next
  assume "\<not> done_at n \<and> rd dn = (Inl e, d')"
  then show "run_in_thread rd cl done_at (Suc n + k) d q
              = Some (d', q @ map Inr cs @ [Inl e, Inr []])"
    using run_in_thread_ends(3) [OF assms] by blast
next
  fix fuel d'' q'
  assume "run_in_thread rd cl done_at fuel d q = Some (d'', q')"
  from run_in_thread_shape [OF this] obtain cs' r where cs': "[] \<notin> set cs'"
    and q': "q' = q @ map Inr cs' @ (case r of None \<Rightarrow> [] | Some e \<Rightarrow> [Inl e]) @ [Inr []]"
    by blast
  let ?pushed = "map Inr cs' @ (case r of None \<Rightarrow> [] | Some e \<Rightarrow> [Inl e]) @ [Inr []]"
  have "count_list ?pushed (Inr []) = 1"
    using count_no_sentinel [OF cs'] by (simp split: option.splits)
  moreover have "last ?pushed = Inr []" by simp
  ultimately show "\<exists>pushed. q' = q @ pushed \<and> pushed \<noteq> [] \<and> last pushed = Inr []
         \<and> count_list pushed (Inr []) = 1"
    using q' by (intro exI [of _ ?pushed]) simp
next
  fix fuel r
  assume "run_in_thread rd cl done_at fuel d q = Some r"
  then show "run_in_thread rd cl done_at (fuel + k) d q = Some r"
    by (rule run_in_thread_more_fuel)
qed

theorem run_in_thread_one_sentinel_last_witness:
  "read_n script_read 2 [Inr ''A'', Inr ''B''] = (map Inr [''A'', ''B''], [])
   \<and> [] \<notin> set [''A'', ''B'']
   \<and> script_read [] = (Inr [], [])
   \<and> run_in_thread script_read (script_close None) (\<lambda>i. False) 3 [Inr ''A'', Inr ''B''] []
       = Some ([], [Inr ''A'', Inr ''B'', Inr []])"
proof -
  have prefix: "read_n script_read 2 [Inr ''A'', Inr ''B''] = (map Inr [''A'', ''B''], [])"
    by (simp add: numeral_2_eq_2 script_read_def)
  have chunks: "[] \<notin> set [''A'', ''B'']" by simp
  have unset: "\<forall>i<2::nat. \<not> (\<lambda>i. False) i" by simp
  have eof: "script_read [] = (Inr [], [])" by (simp add: script_read_def)
  from run_in_thread_one_sentinel_last [OF prefix chunks unset,
         where d' = "[]" and cl = "script_close None" and k = 0 and q = "[]"] eof
  have "run_in_thread script_read (script_close None) (\<lambda>i. False) (Suc 2 + 0) [Inr ''A'', Inr ''B''] []
       = Some (snd (script_close None []),
               [] @ map Inr [''A'', ''B''] @ failure_slot (fst (script_close None [])) @ [Inr []])"
    by blast
  then have "run_in_thread script_read (script_close None) (\<lambda>i. False) 3 [Inr ''A'', Inr ''B''] []
       = Some ([], [Inr ''A'', Inr ''B'', Inr []])"
    by (simp add: script_close_def failure_slot_def numeral_3_eq_3 del: read_loop.simps)
  with prefix chunks eof show ?thesis by blast
qed

text \<open>
  Claim C2. Take a run whose first \<open>n\<close> reads give the non-empty chunks \<open>cs\<close> with the
  flag unset. When the next read throws \<open>e\<close>, or the loop is left (on a stop request or
  at the end of the input) and \<open>close\<close> throws \<open>e\<close>, \<open>run_in_thread\<close> still returns:
  after the chunks it has pushed a slot holding \<open>e\<close> and then the sentinel. A consumer
  that pops the slots of this run receives the chunks in order; its next \<open>pop\<close> throws
  \<open>e\<close>, and the one after returns the sentinel and leaves the wrapper DONE. With
  \<open>n = 0\<close>: when the first read throws, the first \<open>pop\<close> throws that failure and the
  second returns the sentinel.
\<close>

theorem failure_reaches_consumer:
  assumes "read_n rd n d = (map Inr cs, dn)" and "[] \<notin> set cs" and "\<forall>i<n. \<not> done_at i"
  shows "(\<not> done_at n \<and> rd dn = (Inl e, d') \<longrightarrow>
            run_in_thread rd cl done_at (Suc n + k) d q
              = Some (d', q @ map Inr cs @ [Inl e, Inr []]))
     \<and> (done_at n \<and> cl dn = (Some e, d') \<longrightarrow>
            run_in_thread rd cl done_at (Suc n + k) d q
              = Some (d', q @ map Inr cs @ [Inl e, Inr []]))
     \<and> (\<not> done_at n \<and> rd dn = (Inr [], de) \<and> cl de = (Some e, d') \<longrightarrow>
            run_in_thread rd cl done_at (Suc n + k) d q
              = Some (d', q @ map Inr cs @ [Inl e, Inr []]))
     \<and> pop_n [] string_empty (length cs + 2) (queue_wrapper_init (map Inr cs @ [Inl e, Inr []]))
         = (map Returned cs @ [Raised e, Returned []], \<lparr>m_queue = [], m_done = True\<rparr>)"
proof (intro conjI impI)
  assume "\<not> done_at n \<and> rd dn = (Inl e, d')"
  then show "run_in_thread rd cl done_at (Suc n + k) d q
              = Some (d', q @ map Inr cs @ [Inl e, Inr []])"
    using run_in_thread_ends(3) [OF assms] by blast
next
  assume "done_at n \<and> cl dn = (Some e, d')"
  then show "run_in_thread rd cl done_at (Suc n + k) d q
              = Some (d', q @ map Inr cs @ [Inl e, Inr []])"
    using run_in_thread_ends(1) [OF assms, where cl = cl and k = k and q = q]
    by (simp add: failure_slot_def)
next
  assume "\<not> done_at n \<and> rd dn = (Inr [], de) \<and> cl de = (Some e, d')"
  then show "run_in_thread rd cl done_at (Suc n + k) d q
              = Some (d', q @ map Inr cs @ [Inl e, Inr []])"
    using run_in_thread_ends(2) [OF assms, where d' = de and cl = cl and k = k and q = q]
    by (simp add: failure_slot_def)
next
  show "pop_n [] string_empty (length cs + 2) (queue_wrapper_init (map Inr cs @ [Inl e, Inr []]))
         = (map Returned cs @ [Raised e, Returned []], \<lparr>m_queue = [], m_done = True\<rparr>)"
    unfolding queue_wrapper_init_def pop_n_add
    by (simp add: pop_n_chunks [OF assms(2)] pop_failure_then_sentinel)
qed

theorem failure_reaches_consumer_witness:
  "script_read [Inl (Other_failure ''boom''), Inr ''B''] = (Inl (Other_failure ''boom''), [Inr ''B''])
   \<and> run_in_thread script_read (script_close None) (\<lambda>i. False) 1
        [Inl (Other_failure ''boom''), Inr ''B''] []
       = Some ([Inr ''B''], [Inl (Other_failure ''boom''), Inr []])
   \<and> pop_n [] string_empty 2 (queue_wrapper_init [Inl (Other_failure ''boom''), Inr []])
       = ([Raised (Other_failure ''boom''), Returned []], \<lparr>m_queue = [], m_done = True\<rparr>)
   \<and> script_close (Some (Other_failure ''close'')) [] = (Some (Other_failure ''close''), [])
   \<and> run_in_thread script_read (script_close (Some (Other_failure ''close''))) (\<lambda>i. False) 2
        [Inr ''A''] []
       = Some ([], [Inr ''A'', Inl (Other_failure ''close''), Inr []])"
proof -
  let ?boom = "Other_failure ''boom''" and ?close = "Other_failure ''close''"
  have none: "read_n script_read 0 [Inl ?boom, Inr ''B''] = (map Inr [], [Inl ?boom, Inr ''B''])"
    "[] \<notin> set ([] :: string list)" "\<forall>i<0::nat. \<not> (\<lambda>i. False) i"
    by simp_all
  have first: "script_read [Inl ?boom, Inr ''B''] = (Inl ?boom, [Inr ''B''])"
    by (simp add: script_read_def)
  note read_fails = failure_reaches_consumer [OF none, where e = ?boom and d' = "[Inr ''B'']"
      and cl = "script_close None" and k = 0 and q = "[]"]
  from read_fails first
  have "run_in_thread script_read (script_close None) (\<lambda>i. False) (Suc 0 + 0)
          [Inl ?boom, Inr ''B''] []
        = Some ([Inr ''B''], [] @ map Inr [] @ [Inl ?boom, Inr []])"
    by blast
  then have run1: "run_in_thread script_read (script_close None) (\<lambda>i. False) 1
          [Inl ?boom, Inr ''B''] [] = Some ([Inr ''B''], [Inl ?boom, Inr []])"
    by (simp del: read_loop.simps)
  from read_fails
  have "pop_n [] string_empty (length ([] :: string list) + 2)
          (queue_wrapper_init (map Inr [] @ [Inl ?boom, Inr []]))
        = (map Returned [] @ [Raised ?boom, Returned []], \<lparr>m_queue = [], m_done = True\<rparr>)"
    by blast
  then have pops: "pop_n [] string_empty 2 (queue_wrapper_init [Inl ?boom, Inr []])
        = ([Raised ?boom, Returned []], \<lparr>m_queue = [], m_done = True\<rparr>)"
    by (simp add: numeral_2_eq_2 del: pop_n.simps)
  have one: "read_n script_read 1 [Inr ''A''] = (map Inr [''A''], [])"
    "[] \<notin> set [''A'']" "\<forall>i<1::nat. \<not> (\<lambda>i. False) i"
    by (simp_all add: script_read_def)
  have eof: "script_read [] = (Inr [], [])" by (simp add: script_read_def)
  have cl: "script_close (Some ?close) [] = (Some ?close, [])" by (simp add: script_close_def)
  from failure_reaches_consumer [OF one, where e = ?close and d' = "[]" and de = "[]"
      and cl = "script_close (Some ?close)" and k = 0 and q = "[]"] eof cl
  have "run_in_thread script_read (script_close (Some ?close)) (\<lambda>i. False) (Suc 1 + 0)
          [Inr ''A''] []
        = Some ([], [] @ map Inr [''A''] @ [Inl ?close, Inr []])"
    by blast
  then have run2: "run_in_thread script_read (script_close (Some ?close)) (\<lambda>i. False) 2
          [Inr ''A''] [] = Some ([], [Inr ''A'', Inl ?close, Inr []])"
    by (simp add: numeral_2_eq_2 del: read_loop.simps)
  from first run1 pops cl run2 show ?thesis by blast
qed

lemma thread_rest_at_check:
  "thread_rest rd cl True (Suc k) At_check d q
     = Some (snd (cl d), q @ failure_slot (fst (cl d)) @ [Inr []])"
  by (cases "cl d")
     (simp add: run_in_thread_def try_block_def failure_slot_def add_to_queue_def
           add_to_queue_exception_def push_def split: option.splits)

lemma thread_rest_in_cycle:
  "thread_rest rd cl True (Suc (Suc k)) In_cycle d q
     = Some (case rd d of
               (Inl e, d') \<Rightarrow> (d', q @ [Inl e, Inr []])
             | (Inr data, d') \<Rightarrow>
                 (snd (cl d'),
                  q @ (if data = [] then [] else [Inr data]) @ failure_slot (fst (cl d')) @ [Inr []]))"
proof -
  obtain r d1 where rd: "rd d = (r, d1)" by (cases "rd d")
  obtain c d2 where cl: "cl d1 = (c, d2)" by (cases "cl d1")
  show ?thesis
    using rd cl
    by (cases r)
       (simp_all add: run_in_thread_def try_block_def failure_slot_def add_to_queue_def
             add_to_queue_exception_def push_def split: option.splits)
qed

lemma thread_rest_counts:
  assumes "thread_rest (counting_read rd) (counting_close cl) True fuel ph (n, d) q = Some ((n', d'), q')"
  shows "n' \<le> n + 1 \<and> (ph \<noteq> In_cycle \<longrightarrow> n' = n)"
proof (cases ph)
  case At_check
  with assms run_in_thread_counts [of rd cl "\<lambda>i. True" fuel n d q n' d' q' 0] show ?thesis by simp
next
  case In_cycle
  with assms run_in_thread_counts [of rd cl "\<lambda>i. 0 < i \<and> True" fuel n d q n' d' q' 1]
  show ?thesis by simp
next
  case Exited
  with assms show ?thesis by simp
qed

lemma read_loop_never_ends:
  "read_loop (\<lambda>d. (Inr ''x'', d)) (\<lambda>i. False) fuel i d q = None"
  by (induction fuel arbitrary: i q) simp_all

lemma close_rtm_twice:
  assumes "close_rtm rd cl fuel m = Some m'"
  shows "close_rtm rd cl fuel' m' = Some m' \<and> m_done_rtm m' \<and> m_thread m' = Not_joinable"
  using assms
  by (auto simp: close_rtm_def join_def stop_def Let_def
           split: thread.splits option.splits prod.splits)

lemma close_rtm_cases:
  "m_thread m = Not_joinable \<Longrightarrow> close_rtm rd cl fuel m = Some (stop m)"
  "m_thread m = Joinable Exited \<Longrightarrow>
     close_rtm rd cl fuel m = Some ((stop m)\<lparr>m_thread := Not_joinable\<rparr>)"
  "m_thread m = Joinable At_check \<Longrightarrow>
     close_rtm rd cl (Suc k) m
       = Some ((stop m)\<lparr>m_decompressor := snd (cl (m_decompressor m)),
                 m_queue_rtm := m_queue_rtm m @ failure_slot (fst (cl (m_decompressor m))) @ [Inr []],
                 m_thread := Not_joinable\<rparr>)"
  "m_thread m = Joinable In_cycle \<Longrightarrow>
     close_rtm rd cl (Suc (Suc k)) m
       = Some (case rd (m_decompressor m) of
                 (Inl e, d') \<Rightarrow>
                   (stop m)\<lparr>m_decompressor := d', m_queue_rtm := m_queue_rtm m @ [Inl e, Inr []],
                     m_thread := Not_joinable\<rparr>
               | (Inr data, d') \<Rightarrow>
                   (stop m)\<lparr>m_decompressor := snd (cl d'),
                     m_queue_rtm := m_queue_rtm m @ (if data = [] then [] else [Inr data])
                                      @ failure_slot (fst (cl d')) @ [Inr []],
                     m_thread := Not_joinable\<rparr>)"
proof -
  show "m_thread m = Not_joinable \<Longrightarrow> close_rtm rd cl fuel m = Some (stop m)"
    by (simp add: close_rtm_def stop_def)
  show "m_thread m = Joinable Exited \<Longrightarrow>
     close_rtm rd cl fuel m = Some ((stop m)\<lparr>m_thread := Not_joinable\<rparr>)"
    by (simp add: close_rtm_def join_def stop_def)
  show "m_thread m = Joinable At_check \<Longrightarrow>
     close_rtm rd cl (Suc k) m
       = Some ((stop m)\<lparr>m_decompressor := snd (cl (m_decompressor m)),
                 m_queue_rtm := m_queue_rtm m @ failure_slot (fst (cl (m_decompressor m))) @ [Inr []],
                 m_thread := Not_joinable\<rparr>)"
    unfolding close_rtm_def join_def Let_def
    by (simp add: stop_def thread_rest_at_check del: thread_rest.simps)
  show "m_thread m = Joinable In_cycle \<Longrightarrow>
     close_rtm rd cl (Suc (Suc k)) m
       = Some (case rd (m_decompressor m) of
                 (Inl e, d') \<Rightarrow>
                   (stop m)\<lparr>m_decompressor := d', m_queue_rtm := m_queue_rtm m @ [Inl e, Inr []],
                     m_thread := Not_joinable\<rparr>
               | (Inr data, d') \<Rightarrow>
                   (stop m)\<lparr>m_decompressor := snd (cl d'),
                     m_queue_rtm := m_queue_rtm m @ (if data = [] then [] else [Inr data])
                                      @ failure_slot (fst (cl d')) @ [Inr []],
                     m_thread := Not_joinable\<rparr>)"
    unfolding close_rtm_def join_def Let_def
    by (simp add: stop_def thread_rest_in_cycle del: thread_rest.simps
             split: prod.splits sum.splits)
qed

lemma close_rtm_returns: "close_rtm rd cl (Suc (Suc k)) m \<noteq> None"
proof (cases "m_thread m")
  case Not_joinable
  then show ?thesis by (simp add: close_rtm_cases)
next
  case (Joinable ph)
  then show ?thesis
    by (cases ph) (simp_all add: close_rtm_cases)
qed

text \<open>
  Claim C9. \<open>stop\<close> sets the flag and nothing else, whatever the background thread is
  doing, and a second \<open>stop\<close> changes nothing. The loop reads the flag only when it
  evaluates its condition: a run that finds the flag set at its \<open>j\<close>-th evaluation has
  made at most \<open>j\<close> reads. \<open>close\<close> sets the flag and joins, and the join waits for
  the thread as it runs on with the flag set. A thread that stands at the condition
  leaves the loop without a further read, closes the decompressor and pushes the
  sentinel. A thread inside a cycle completes that one cycle, its read and its push, then
  finds the flag set and does the same. So after the flag is set at most one read is made,
  the join returns (two units of fuel are enough), the thread is then no longer joinable,
  and a further \<open>close\<close> changes nothing. The destructor is \<open>close\<close>. Without the
  flag a thread whose reads never fail and never give the empty string does not end.
\<close>

theorem stop_is_cooperative:
  "stop m = m\<lparr>m_done_rtm := True\<rparr> \<and> stop (stop m) = stop m
   \<and> (\<forall>r n' d' q'. read_loop (counting_read rd) done_at fuel 0 (n, d) q = Some (r, (n', d'), q')
          \<and> done_at j \<longrightarrow> n' \<le> n + j)
   \<and> (\<forall>n' d' q'. thread_rest (counting_read rd) (counting_close cl) True fuel ph (n, d) q
            = Some ((n', d'), q') \<longrightarrow> n' \<le> n + 1 \<and> (ph \<noteq> In_cycle \<longrightarrow> n' = n))
   \<and> (m_thread m = Not_joinable \<longrightarrow> close_rtm rd cl fuel m = Some (stop m))
   \<and> (m_thread m = Joinable Exited \<longrightarrow>
        close_rtm rd cl fuel m = Some ((stop m)\<lparr>m_thread := Not_joinable\<rparr>))
   \<and> (m_thread m = Joinable At_check \<longrightarrow>
        close_rtm rd cl (Suc k) m
          = Some ((stop m)\<lparr>m_decompressor := snd (cl (m_decompressor m)),
                    m_queue_rtm := m_queue_rtm m @ failure_slot (fst (cl (m_decompressor m))) @ [Inr []],
                    m_thread := Not_joinable\<rparr>))
   \<and> (m_thread m = Joinable In_cycle \<longrightarrow>
        close_rtm rd cl (Suc (Suc k)) m
          = Some (case rd (m_decompressor m) of
                    (Inl e, d') \<Rightarrow>
                      (stop m)\<lparr>m_decompressor := d', m_queue_rtm := m_queue_rtm m @ [Inl e, Inr []],
                        m_thread := Not_joinable\<rparr>
                  | (Inr data, d') \<Rightarrow>
                      (stop m)\<lparr>m_decompressor := snd (cl d'),
                        m_queue_rtm := m_queue_rtm m @ (if data = [] then [] else [Inr data])
                                         @ failure_slot (fst (cl d')) @ [Inr []],
                        m_thread := Not_joinable\<rparr>))
   \<and> close_rtm rd cl (Suc (Suc k)) m \<noteq> None
   \<and> (\<forall>m'. close_rtm rd cl fuel m = Some m' \<longrightarrow>
          m_done_rtm m' \<and> m_thread m' = Not_joinable \<and> close_rtm rd cl fuel' m' = Some m')
   \<and> ReadThreadManager_destroy rd cl fuel m = close_rtm rd cl fuel m
   \<and> thread_rest (\<lambda>d. (Inr ''x'', d)) cl' False fuel At_check d0 q = None"
proof (intro conjI allI impI)
  show "stop m = m\<lparr>m_done_rtm := True\<rparr>" by (simp add: stop_def)
  show "stop (stop m) = stop m" by (simp add: stop_def)
  show "close_rtm rd cl (Suc (Suc k)) m \<noteq> None" by (rule close_rtm_returns)
  show "ReadThreadManager_destroy rd cl fuel m = close_rtm rd cl fuel m"
    by (simp add: ReadThreadManager_destroy_def)
  show "thread_rest (\<lambda>d. (Inr ''x'', d)) cl' False fuel At_check d0 q = None"
    by (simp add: run_in_thread_def try_block_def read_loop_never_ends)
next
  fix r n' d' q'
  assume "read_loop (counting_read rd) done_at fuel 0 (n, d) q = Some (r, (n', d'), q') \<and> done_at j"
  then show "n' \<le> n + j"
    using read_loop_counts [of rd done_at fuel 0 n d q r n' d' q' j] by simp
next
  fix n' d' q'
  assume rest: "thread_rest (counting_read rd) (counting_close cl) True fuel ph (n, d) q
      = Some ((n', d'), q')"
  from thread_rest_counts [OF rest] show "n' \<le> n + 1" by simp
  { assume "ph \<noteq> In_cycle"
    with thread_rest_counts [OF rest] show "n' = n" by simp }
next
  assume "m_thread m = Not_joinable"
  then show "close_rtm rd cl fuel m = Some (stop m)" by (rule close_rtm_cases)
next
  assume "m_thread m = Joinable Exited"
  then show "close_rtm rd cl fuel m = Some ((stop m)\<lparr>m_thread := Not_joinable\<rparr>)"
    by (rule close_rtm_cases)
next
  assume "m_thread m = Joinable At_check"
  then show "close_rtm rd cl (Suc k) m
          = Some ((stop m)\<lparr>m_decompressor := snd (cl (m_decompressor m)),
                    m_queue_rtm := m_queue_rtm m @ failure_slot (fst (cl (m_decompressor m))) @ [Inr []],
                    m_thread := Not_joinable\<rparr>)"
    by (rule close_rtm_cases)
next
  assume "m_thread m = Joinable In_cycle"
  then show "close_rtm rd cl (Suc (Suc k)) m
          = Some (case rd (m_decompressor m) of
                    (Inl e, d') \<Rightarrow>
                      (stop m)\<lparr>m_decompressor := d', m_queue_rtm := m_queue_rtm m @ [Inl e, Inr []],
                        m_thread := Not_joinable\<rparr>
                  | (Inr data, d') \<Rightarrow>
                      (stop m)\<lparr>m_decompressor := snd (cl d'),
                        m_queue_rtm := m_queue_rtm m @ (if data = [] then [] else [Inr data])
                                         @ failure_slot (fst (cl d')) @ [Inr []],
                        m_thread := Not_joinable\<rparr>)"
    by (rule close_rtm_cases)
next
  fix m'
  assume m': "close_rtm rd cl fuel m = Some m'"
  from close_rtm_twice [OF m'] show "m_done_rtm m'" "m_thread m' = Not_joinable"
    "close_rtm rd cl fuel' m' = Some m'" by simp_all
qed

theorem stop_is_cooperative_witness:
  "m_thread \<lparr>m_decompressor = [Inr ''A'', Inr ''B''], m_queue_rtm = [], m_done_rtm = False,
             m_thread = Joinable In_cycle\<rparr> = Joinable In_cycle
   \<and> close_rtm script_read (script_close None) 2
        \<lparr>m_decompressor = [Inr ''A'', Inr ''B''], m_queue_rtm = [], m_done_rtm = False,
         m_thread = Joinable In_cycle\<rparr>
       = Some \<lparr>m_decompressor = [Inr ''B''], m_queue_rtm = [Inr ''A'', Inr []], m_done_rtm = True,
               m_thread = Not_joinable\<rparr>
   \<and> close_rtm script_read (script_close None) 2
        \<lparr>m_decompressor = [Inr ''B''], m_queue_rtm = [Inr ''A'', Inr []], m_done_rtm = True,
         m_thread = Not_joinable\<rparr>
       = Some \<lparr>m_decompressor = [Inr ''B''], m_queue_rtm = [Inr ''A'', Inr []], m_done_rtm = True,
               m_thread = Not_joinable\<rparr>"
proof -
  let ?m = "\<lparr>m_decompressor = [Inr ''A'', Inr ''B''], m_queue_rtm = [] :: string queue,
             m_done_rtm = False, m_thread = Joinable In_cycle\<rparr>"
  let ?m' = "\<lparr>m_decompressor = [Inr ''B''], m_queue_rtm = [Inr ''A'', Inr []] :: string queue,
              m_done_rtm = True, m_thread = Not_joinable\<rparr>"
  have ph: "m_thread ?m = Joinable In_cycle" by simp
  note inst = stop_is_cooperative [where m = ?m and rd = script_read
      and cl = "script_close None" and k = 0 and fuel = 2 and fuel' = 2]
  note c2 = conjunct2
  note in_cycle = inst [THEN c2, THEN c2, THEN c2, THEN c2, THEN c2, THEN c2, THEN c2,
      THEN conjunct1, THEN mp, OF ph]
  note twice = inst [THEN c2, THEN c2, THEN c2, THEN c2, THEN c2, THEN c2, THEN c2, THEN c2,
      THEN c2, THEN conjunct1, THEN spec, THEN mp]
  from in_cycle have first: "close_rtm script_read (script_close None) 2 ?m = Some ?m'"
    by (simp add: numeral_2_eq_2 script_read_def script_close_def failure_slot_def stop_def)
  from twice [OF first]
  have again: "close_rtm script_read (script_close None) 2 ?m' = Some ?m'"
    by (rule conjunct2 [THEN conjunct2])
  show ?thesis
    by (rule conjI [OF ph conjI [OF first again]])
qed

section \<open>Properties of \<open>Bzip2Compressor\<close>\<close>

lemma close_closed_compressor:
  "m_bzfile s = None \<Longrightarrow> Bzip2Compressor_close env s = (Ok (), s)"
  by (simp add: Bzip2Compressor_close_def)

lemma compressor_close_open:
  assumes "m_bzfile s = Some h" and "m_file s = Some f"
    and "m_fsync s \<longrightarrow> fsync_result env = None"
  shows "Bzip2Compressor_close env s =
     (let bzerror = fst (bzWriteClose64_result env);
          s3 = s\<lparr>m_file := None, m_bzfile := None,
                  calls := calls s @ [BZ2_bzWriteClose64 h]
                     @ (if m_fsync s then [Reliable_fsync (fileno f)] else [])
                     @ (if fileno f = 1 then [] else [Fclose f])\<rparr>
      in if fileno f \<noteq> 1 \<and> fclose_result env \<noteq> 0 then (Throw (System_error ''fclose failed''), s3)
         else if bzerror \<noteq> BZ_OK
         then (Throw (Bzip2_error ''bzip2 error: write close failed'' bzerror), s3)
         else (Ok (), s3\<lparr>m_file_size :=
                 push_bit 32 (ucast (snd (snd (bzWriteClose64_result env))))
                   OR ucast (fst (snd (bzWriteClose64_result env)))\<rparr>))"
  using assms
  by (cases "bzWriteClose64_result env")
     (auto simp: Bzip2Compressor_close_def Let_def reliable_fsync_def file_wrapper_close_def)

lemma compressor_close_fsync_throws:
  assumes "m_bzfile s = Some h" and "m_file s = Some f"
    and "m_fsync s" and "fsync_result env = Some e"
  shows "Bzip2Compressor_close env s =
     (Throw e, s\<lparr>m_bzfile := None,
                 calls := calls s @ [BZ2_bzWriteClose64 h, Reliable_fsync (fileno f)]\<rparr>)"
  using assms
  by (cases "bzWriteClose64_result env")
     (simp add: Bzip2Compressor_close_def Let_def reliable_fsync_def)

lemma compressor_close_no_file:
  assumes "m_bzfile s = Some h" and "m_file s = None"
  shows "Bzip2Compressor_close env s =
     (let bzerror = fst (bzWriteClose64_result env);
          s3 = s\<lparr>m_bzfile := None, calls := calls s @ [BZ2_bzWriteClose64 h]\<rparr>
      in if bzerror \<noteq> BZ_OK
         then (Throw (Bzip2_error ''bzip2 error: write close failed'' bzerror), s3)
         else (Ok (), s3\<lparr>m_file_size :=
                 push_bit 32 (ucast (snd (snd (bzWriteClose64_result env))))
                   OR ucast (fst (snd (bzWriteClose64_result env)))\<rparr>))"
  using assms
  by (cases "bzWriteClose64_result env")
     (simp add: Bzip2Compressor_close_def Let_def file_wrapper_close_def)

lemma compressor_close_cases:
  obtains (closed) "m_bzfile s = None"
  | (no_file) h where "m_bzfile s = Some h" "m_file s = None"
  | (fsync_throws) h f e where "m_bzfile s = Some h" "m_file s = Some f" "m_fsync s"
      "fsync_result env = Some e"
  | (cleanup) h f where "m_bzfile s = Some h" "m_file s = Some f"
      "m_fsync s \<longrightarrow> fsync_result env = None"
  by (cases "m_bzfile s"; cases "m_file s"; cases "m_fsync s"; cases "fsync_result env") auto

lemma compressor_closed_after_close:
  "m_bzfile (snd (Bzip2Compressor_close env s)) = None"
proof (cases rule: compressor_close_cases [where s = s and env = env])
  case closed
  then show ?thesis by (simp add: close_closed_compressor)
next
  case (no_file h)
  then show ?thesis by (simp add: compressor_close_no_file Let_def)
next
  case (fsync_throws h f e)
  then show ?thesis by (simp add: compressor_close_fsync_throws)
next
  case (cleanup h f)
  then show ?thesis by (simp add: compressor_close_open Let_def)
qed

lemma close_keeps_size_unless_ok:
  assumes "m_file_size (snd (Bzip2Compressor_close env s)) \<noteq> m_file_size s"
  shows "fst (bzWriteClose64_result env) = BZ_OK \<and> fst (Bzip2Compressor_close env s) = Ok ()"
proof (cases rule: compressor_close_cases [where s = s and env = env])
  case closed
  with assms show ?thesis by (simp add: close_closed_compressor)
next
  case (no_file h)
  with assms show ?thesis by (simp add: compressor_close_no_file Let_def split: if_splits)
next
  case (fsync_throws h f e)
  with assms show ?thesis by (simp add: compressor_close_fsync_throws)
next
  case (cleanup h f)
  with assms show ?thesis by (simp add: compressor_close_open Let_def split: if_splits)
qed

lemma close_throws_when_not_ok:
  assumes "m_bzfile s \<noteq> None" and "fst (bzWriteClose64_result env) \<noteq> BZ_OK"
  shows "\<exists>e. fst (Bzip2Compressor_close env s) = Throw e
           \<and> m_file_size (snd (Bzip2Compressor_close env s)) = m_file_size s"
proof (cases rule: compressor_close_cases [where s = s and env = env])
  case closed
  with assms show ?thesis by simp
next
  case (no_file h)
  with assms show ?thesis by (simp add: compressor_close_no_file Let_def)
next
  case (fsync_throws h f e)
  with assms show ?thesis by (simp add: compressor_close_fsync_throws)
next
  case (cleanup h f)
  with assms show ?thesis by (simp add: compressor_close_open Let_def)
qed

lemma write_keeps_size:
  "m_file_size (snd (Bzip2Compressor_write env data s)) = m_file_size s"
  by (simp add: Bzip2Compressor_write_def Let_def split: option.splits)

lemma init_size_zero:
  "Bzip2Compressor_init env fd sync = Inr s \<Longrightarrow> m_file_size s = 0"
  by (auto simp: Bzip2Compressor_init_def file_wrapper_init_def
           split: sum.splits option.splits prod.splits if_splits)

text \<open>
  Claim C10. When the finalization of an open compressor reports a status other than
  \<open>BZ_OK\<close>, \<open>close\<close> throws and \<open>file_size()\<close> is what it was before. A \<open>close\<close>
  that changes \<open>file_size()\<close> has seen \<open>BZ_OK\<close> and returns normally. The constructor
  sets the size to 0 and \<open>write\<close> does not touch it, so the size is 0 until a \<open>close\<close>
  succeeds.
\<close>

theorem failed_finalize_keeps_file_size:
  "(m_bzfile s \<noteq> None \<and> fst (bzWriteClose64_result env) \<noteq> BZ_OK \<longrightarrow>
      (\<exists>e. fst (Bzip2Compressor_close env s) = Throw e)
      \<and> file_size (snd (Bzip2Compressor_close env s)) = file_size s)
   \<and> (file_size (snd (Bzip2Compressor_close env s)) \<noteq> file_size s \<longrightarrow>
        fst (bzWriteClose64_result env) = BZ_OK \<and> fst (Bzip2Compressor_close env s) = Ok ())
   \<and> (\<forall>s0. Bzip2Compressor_init env0 fd sync = Inr s0 \<longrightarrow> file_size s0 = 0)
   \<and> file_size (snd (Bzip2Compressor_write env1 data s)) = file_size s"
  unfolding file_size_def
  using close_throws_when_not_ok [of s env] close_keeps_size_unless_ok [of env s]
    write_keeps_size [of env1 data s] init_size_zero [of env0 fd sync]
  by blast

theorem failed_finalize_keeps_file_size_witness:
  "m_bzfile file_compressor \<noteq> None \<and> fst (bzWriteClose64_result failing_finalize_env) \<noteq> BZ_OK
   \<and> Bzip2Compressor_init quiet_env 3 True = Inr file_compressor
   \<and> (\<exists>e. fst (Bzip2Compressor_close failing_finalize_env file_compressor) = Throw e)
   \<and> file_size (snd (Bzip2Compressor_close failing_finalize_env file_compressor)) = 0"
proof -
  have open_handle: "m_bzfile file_compressor \<noteq> None"
    by (simp add: file_compressor_def)
  have not_ok: "fst (bzWriteClose64_result failing_finalize_env) \<noteq> BZ_OK"
    by (simp add: failing_finalize_env_def quiet_env_def BZ_OK_def BZ_IO_ERROR_def)
  have init: "Bzip2Compressor_init quiet_env 3 True = Inr file_compressor"
    by (simp add: Bzip2Compressor_init_def file_wrapper_init_def quiet_env_def file_compressor_def)
  have zero: "file_size file_compressor = 0"
    by (simp add: file_size_def file_compressor_def)
  from failed_finalize_keeps_file_size [of file_compressor failing_finalize_env] open_handle not_ok
  have "(\<exists>e. fst (Bzip2Compressor_close failing_finalize_env file_compressor) = Throw e)
      \<and> file_size (snd (Bzip2Compressor_close failing_finalize_env file_compressor))
          = file_size file_compressor"
    by blast
  with open_handle not_ok init zero show ?thesis by simp
qed

text \<open>
  Claim C7, as stated, fails for a compressor that writes to standard output: \<open>close\<close>
  finalizes the stream and returns, and the file is not closed, because
  \<open>file_wrapper::close\<close> leaves descriptor 1 open.
\<close>

theorem close_leaves_stdout_open:
  "Bzip2Compressor_init quiet_env 1 False = Inr stdout_compressor
   \<and> Bzip2Compressor_close quiet_env stdout_compressor
       = (Ok (), stdout_compressor\<lparr>m_file := None, m_bzfile := None,
                   calls := [BZ2_bzWriteOpen (FILE 1), BZ2_bzWriteClose64 0]\<rparr>)
   \<and> Fclose (FILE 1) \<notin> set (calls (snd (Bzip2Compressor_close quiet_env stdout_compressor)))"
proof -
  have init: "Bzip2Compressor_init quiet_env 1 False = Inr stdout_compressor"
    by (simp add: Bzip2Compressor_init_def file_wrapper_init_def quiet_env_def stdout_compressor_def)
  have close: "Bzip2Compressor_close quiet_env stdout_compressor
       = (Ok (), stdout_compressor\<lparr>m_file := None, m_bzfile := None,
                   calls := [BZ2_bzWriteOpen (FILE 1), BZ2_bzWriteClose64 0]\<rparr>)"
    by (simp add: Bzip2Compressor_close_def file_wrapper_close_def quiet_env_def
          stdout_compressor_def)
  from init close show ?thesis by simp
qed

text \<open>
  Claim C7, amended. On an open compressor \<open>close\<close> first finalizes the stream and
  drops the handle, then syncs the file when that is configured. Provided the sync does not
  throw, \<open>file_wrapper::close\<close> runs next, whatever the status of the finalization was:
  it drops the \<open>FILE\<close> pointer and closes the file, except that descriptor 1 is left
  open, and a failing \<open>fclose\<close> is thrown. Only then is a status other than \<open>BZ_OK\<close>
  thrown as a failure.
\<close>

theorem close_cleans_up_then_raises:
  assumes "m_bzfile s = Some h" and "m_file s = Some f"
    and "m_fsync s \<longrightarrow> fsync_result env = None"
  shows "calls (snd (Bzip2Compressor_close env s))
           = calls s @ [BZ2_bzWriteClose64 h]
               @ (if m_fsync s then [Reliable_fsync (fileno f)] else [])
               @ (if fileno f = 1 then [] else [Fclose f])
     \<and> m_bzfile (snd (Bzip2Compressor_close env s)) = None
     \<and> m_file (snd (Bzip2Compressor_close env s)) = None
     \<and> fst (Bzip2Compressor_close env s)
         = (if fileno f \<noteq> 1 \<and> fclose_result env \<noteq> 0 then Throw (System_error ''fclose failed'')
            else if fst (bzWriteClose64_result env) \<noteq> BZ_OK
            then Throw (Bzip2_error ''bzip2 error: write close failed'' (fst (bzWriteClose64_result env)))
            else Ok ())"
  by (simp add: compressor_close_open [OF assms] Let_def)

theorem close_cleans_up_then_raises_witness:
  "m_bzfile file_compressor = Some 0 \<and> m_file file_compressor = Some (FILE 3)
   \<and> fsync_result failing_finalize_env = None
   \<and> calls (snd (Bzip2Compressor_close failing_finalize_env file_compressor))
       = [BZ2_bzWriteOpen (FILE 3), BZ2_bzWriteClose64 0, Reliable_fsync 3, Fclose (FILE 3)]
   \<and> fst (Bzip2Compressor_close failing_finalize_env file_compressor)
       = Throw (Bzip2_error ''bzip2 error: write close failed'' BZ_IO_ERROR)"
proof -
  have h: "m_bzfile file_compressor = Some 0" and f: "m_file file_compressor = Some (FILE 3)"
    and sync: "fsync_result failing_finalize_env = None"
    by (simp_all add: file_compressor_def failing_finalize_env_def quiet_env_def)
  have facts: "m_fsync file_compressor" "fclose_result failing_finalize_env = 0"
    "fst (bzWriteClose64_result failing_finalize_env) = BZ_IO_ERROR"
    "calls file_compressor = [BZ2_bzWriteOpen (FILE 3)]" "BZ_IO_ERROR \<noteq> BZ_OK"
    by (simp_all add: file_compressor_def failing_finalize_env_def quiet_env_def
          BZ_IO_ERROR_def BZ_OK_def)
  from sync have "m_fsync file_compressor \<longrightarrow> fsync_result failing_finalize_env = None"
    by simp
  from close_cleans_up_then_raises [OF h f this] facts h f sync show ?thesis by simp
qed

section \<open>Properties of the decompressors\<close>

lemma decompressor_close_closed:
  "m_bzfile d = None \<Longrightarrow> Bzip2Decompressor_close env d = (Ok (), d)"
  by (simp add: Bzip2Decompressor_close_def)

lemma decompressor_close_open:
  assumes "m_bzfile d = Some h" and "m_file d = Some f"
  shows "Bzip2Decompressor_close env d =
     (let d2 = d\<lparr>m_file := None, m_bzfile := None,
                  calls := calls d
                     @ (if m_want_buffered_pages_removed d then [Remove_buffered_pages (fileno f) None] else [])
                     @ [BZ2_bzReadClose h]
                     @ (if fileno f = 1 then [] else [Fclose f])\<rparr>
      in if fileno f \<noteq> 1 \<and> fclose_result env \<noteq> 0 then (Throw (System_error ''fclose failed''), d2)
         else if bzReadClose_result env \<noteq> BZ_OK
         then (Throw (Bzip2_error ''bzip2 error: read close failed'' (bzReadClose_result env)), d2)
         else (Ok (), d2))"
  using assms
  by (simp add: Bzip2Decompressor_close_def Let_def file_wrapper_close_def)

lemma decompressor_closed_after_close:
  assumes "m_bzfile d \<noteq> None \<longrightarrow> m_file d \<noteq> None"
  shows "m_bzfile (snd (Bzip2Decompressor_close env d)) = None"
proof (cases "m_bzfile d")
  case None
  then show ?thesis by (simp add: decompressor_close_closed)
next
  case (Some h)
  with assms obtain f where "m_file d = Some f" by auto
  with Some show ?thesis by (simp add: decompressor_close_open Let_def)
qed

lemma buffer_close_twice:
  "Bzip2BufferDecompressor_close (snd (Bzip2BufferDecompressor_close b))
     = (Ok (), snd (Bzip2BufferDecompressor_close b))
   \<and> fst (BZ2_bzDecompressEnd (m_bzstream (snd (Bzip2BufferDecompressor_close b)))) = BZ_PARAM_ERROR"
  by (simp add: Bzip2BufferDecompressor_close_def BZ2_bzDecompressEnd_def)

lemma read_keeps_file:
  "m_file (snd (Bzip2Decompressor_read n env d)) = m_file d"
  by (cases "bzRead_result env"; cases "bzReadGetUnused_result env"; cases "bzReadOpen_result env")
     (simp add: Bzip2Decompressor_read_def stream_end_reached_def set_offset_def Let_def
           split: option.splits)

lemma decompressor_init_file:
  "Bzip2Decompressor_init env fd w = Inr d \<Longrightarrow> m_file d \<noteq> None \<and> m_bzfile d \<noteq> None"
  by (auto simp: Bzip2Decompressor_init_def file_wrapper_init_def
           split: if_splits prod.splits option.splits)

lemma decompressor_keeps_its_file:
  "(m_bzfile d \<noteq> None \<longrightarrow> m_file d \<noteq> None) \<Longrightarrow>
   (m_bzfile (snd (Bzip2Decompressor_close env d)) \<noteq> None
       \<longrightarrow> m_file (snd (Bzip2Decompressor_close env d)) \<noteq> None)"
  "m_file d \<noteq> None \<Longrightarrow> m_file (snd (Bzip2Decompressor_read n env d)) \<noteq> None"
  by (simp_all add: decompressor_closed_after_close read_keeps_file)

lemma compressor_destroy_after_close:
  "Bzip2Compressor_destroy env2 (snd (Bzip2Compressor_close env1 c))
     = (snd (Bzip2Compressor_close env1 c))
         \<lparr>m_file := None,
          calls := calls (snd (Bzip2Compressor_close env1 c))
                     @ file_wrapper_destroy (m_file (snd (Bzip2Compressor_close env1 c)))\<rparr>"
  by (simp add: Bzip2Compressor_destroy_def close_closed_compressor
        compressor_closed_after_close Let_def)

lemma decompressor_destroy_after_close:
  assumes "m_bzfile d \<noteq> None \<longrightarrow> m_file d \<noteq> None"
  shows "Bzip2Decompressor_destroy env2 (snd (Bzip2Decompressor_close env1 d))
     = (snd (Bzip2Decompressor_close env1 d))
         \<lparr>m_file := None,
          calls := calls (snd (Bzip2Decompressor_close env1 d))
                     @ file_wrapper_destroy (m_file (snd (Bzip2Decompressor_close env1 d)))\<rparr>"
  by (simp add: Bzip2Decompressor_destroy_def decompressor_close_closed
        decompressor_closed_after_close [OF assms] Let_def)

text \<open>
  Claim C6. A second \<open>close\<close>, with whatever the environment would answer, returns
  normally and leaves the object as the first \<open>close\<close> left it, for each of the three
  classes; for the compressor and the file decompressor that includes the list of calls,
  so nothing is finalized, synced or closed again (the file decompressor is taken in a
  state where an open stream has its file, as the constructor establishes and \<open>read\<close>
  keeps). \<open>Bzip2BufferDecompressor::close\<close> has no guard of its own: it passes the
  stream to \<open>BZ2_bzDecompressEnd\<close> again, which finds nothing to release and answers
  \<open>BZ_PARAM_ERROR\<close>, and the answer is dropped. The \<open>close\<close> inside a destructor
  that runs after an explicit \<open>close\<close> is such a second \<open>close\<close>: the only calls
  such a destructor adds are those of the destructor of the member \<open>file_wrapper\<close>.
\<close>

theorem close_twice_does_nothing:
  "Bzip2Compressor_close env2 (snd (Bzip2Compressor_close env1 c))
     = (Ok (), snd (Bzip2Compressor_close env1 c))
   \<and> ((m_bzfile d \<noteq> None \<longrightarrow> m_file d \<noteq> None) \<longrightarrow>
        Bzip2Decompressor_close env2 (snd (Bzip2Decompressor_close env1 d))
          = (Ok (), snd (Bzip2Decompressor_close env1 d)))
   \<and> Bzip2BufferDecompressor_close (snd (Bzip2BufferDecompressor_close b))
       = (Ok (), snd (Bzip2BufferDecompressor_close b))
   \<and> fst (BZ2_bzDecompressEnd (m_bzstream (snd (Bzip2BufferDecompressor_close b)))) = BZ_PARAM_ERROR
   \<and> Bzip2BufferDecompressor_destroy (snd (Bzip2BufferDecompressor_close b))
       = snd (Bzip2BufferDecompressor_close b)
   \<and> calls (Bzip2Compressor_destroy env2 (snd (Bzip2Compressor_close env1 c)))
       = calls (snd (Bzip2Compressor_close env1 c))
           @ file_wrapper_destroy (m_file (snd (Bzip2Compressor_close env1 c)))
   \<and> ((m_bzfile d \<noteq> None \<longrightarrow> m_file d \<noteq> None) \<longrightarrow>
        calls (Bzip2Decompressor_destroy env2 (snd (Bzip2Decompressor_close env1 d)))
          = calls (snd (Bzip2Decompressor_close env1 d))
              @ file_wrapper_destroy (m_file (snd (Bzip2Decompressor_close env1 d))))"
proof (intro conjI impI)
  show "Bzip2Compressor_close env2 (snd (Bzip2Compressor_close env1 c))
     = (Ok (), snd (Bzip2Compressor_close env1 c))"
    by (rule close_closed_compressor) (rule compressor_closed_after_close)
next
  assume "m_bzfile d \<noteq> None \<longrightarrow> m_file d \<noteq> None"
  then have "m_bzfile (snd (Bzip2Decompressor_close env1 d)) = None"
    by (rule decompressor_closed_after_close)
  then show "Bzip2Decompressor_close env2 (snd (Bzip2Decompressor_close env1 d))
          = (Ok (), snd (Bzip2Decompressor_close env1 d))"
    by (rule decompressor_close_closed)
next
  show "Bzip2BufferDecompressor_close (snd (Bzip2BufferDecompressor_close b))
       = (Ok (), snd (Bzip2BufferDecompressor_close b))"
    using buffer_close_twice [of b] by simp
  show "fst (BZ2_bzDecompressEnd (m_bzstream (snd (Bzip2BufferDecompressor_close b)))) = BZ_PARAM_ERROR"
    using buffer_close_twice [of b] by simp
  then show "Bzip2BufferDecompressor_destroy (snd (Bzip2BufferDecompressor_close b))
       = snd (Bzip2BufferDecompressor_close b)"
    using buffer_close_twice [of b] by (simp add: Bzip2BufferDecompressor_destroy_def)
next
  show "calls (Bzip2Compressor_destroy env2 (snd (Bzip2Compressor_close env1 c)))
       = calls (snd (Bzip2Compressor_close env1 c))
           @ file_wrapper_destroy (m_file (snd (Bzip2Compressor_close env1 c)))"
    by (simp add: compressor_destroy_after_close)
next
  assume "m_bzfile d \<noteq> None \<longrightarrow> m_file d \<noteq> None"
  then show "calls (Bzip2Decompressor_destroy env2 (snd (Bzip2Decompressor_close env1 d)))
          = calls (snd (Bzip2Decompressor_close env1 d))
              @ file_wrapper_destroy (m_file (snd (Bzip2Decompressor_close env1 d)))"
    by (simp add: decompressor_destroy_after_close)
qed

theorem close_twice_does_nothing_witness:
  "m_file file_decompressor \<noteq> None
   \<and> snd (Bzip2Decompressor_close quiet_env file_decompressor)
       = file_decompressor\<lparr>m_file := None, m_bzfile := None,
            calls := [BZ2_bzReadOpen (FILE 3) [], BZ2_bzReadClose 0, Fclose (FILE 3)]\<rparr>
   \<and> Bzip2Decompressor_close failing_finalize_env (snd (Bzip2Decompressor_close quiet_env file_decompressor))
       = (Ok (), snd (Bzip2Decompressor_close quiet_env file_decompressor))"
proof -
  have inv: "m_file file_decompressor \<noteq> None"
    by (simp add: file_decompressor_def)
  have first: "snd (Bzip2Decompressor_close quiet_env file_decompressor)
       = file_decompressor\<lparr>m_file := None, m_bzfile := None,
            calls := [BZ2_bzReadOpen (FILE 3) [], BZ2_bzReadClose 0, Fclose (FILE 3)]\<rparr>"
    by (simp add: Bzip2Decompressor_close_def file_wrapper_close_def quiet_env_def
          file_decompressor_def)
  from close_twice_does_nothing [of failing_finalize_env quiet_env _ file_decompressor]
  have "(m_bzfile file_decompressor \<noteq> None \<longrightarrow> m_file file_decompressor \<noteq> None) \<longrightarrow>
        Bzip2Decompressor_close failing_finalize_env (snd (Bzip2Decompressor_close quiet_env file_decompressor))
          = (Ok (), snd (Bzip2Decompressor_close quiet_env file_decompressor))"
    by blast
  with inv first show ?thesis by blast
qed

lemma read_after_stream_end:
  assumes "m_stream_end d" and "m_file d = Some f" and "m_bzfile d = Some h"
  shows "fst (Bzip2Decompressor_read n env d) = Ok []
     \<and> m_stream_end (snd (Bzip2Decompressor_read n env d))
     \<and> m_bzfile (snd (Bzip2Decompressor_read n env d)) = Some h
     \<and> m_file (snd (Bzip2Decompressor_read n env d)) = Some f"
  using assms by (simp add: Bzip2Decompressor_read_def set_offset_def Let_def)

lemma buffer_read_after_end:
  "m_buffer b = None \<Longrightarrow> Bzip2BufferDecompressor_read env b = (Ok [], b)"
  by (simp add: Bzip2BufferDecompressor_read_def)

lemma buffer_cleared_at_end:
  "m_buffer b \<noteq> None \<Longrightarrow> fst (bzDecompress_result env) \<noteq> BZ_OK \<Longrightarrow>
   m_buffer (snd (Bzip2BufferDecompressor_read env b)) = None"
  by (cases "bzDecompress_result env")
     (auto simp: Bzip2BufferDecompressor_read_def Let_def)


text \<open>
  Claim C5. The file decompressor on a file whose first stream is the compressed form of no data
  and is followed by a second stream: the first \<open>read\<close> returns the empty string, with
  the stream not marked as ended, and the next \<open>read\<close> returns data.
\<close>

theorem read_empty_before_data:
  "Bzip2Decompressor_init quiet_env 3 False = Inr file_decompressor
   \<and> fst (Bzip2Decompressor_read 1048576 empty_stream_env file_decompressor) = Ok []
   \<and> \<not> m_stream_end (snd (Bzip2Decompressor_read 1048576 empty_stream_env file_decompressor))
   \<and> fst (Bzip2Decompressor_read 1048576 last_stream_env
             (snd (Bzip2Decompressor_read 1048576 empty_stream_env file_decompressor)))
       = Ok ''<osm/>''"
proof -
  have init: "Bzip2Decompressor_init quiet_env 3 False = Inr file_decompressor"
    by (simp add: Bzip2Decompressor_init_def file_wrapper_init_def quiet_env_def
          file_decompressor_def)
  have first: "Bzip2Decompressor_read 1048576 empty_stream_env file_decompressor
      = (Ok [], file_decompressor\<lparr>m_bzfile := Some 1,
           calls := [BZ2_bzReadOpen (FILE 3) [], BZ2_bzRead 0, BZ2_bzReadGetUnused 0,
                     BZ2_bzReadClose 0, BZ2_bzReadOpen (FILE 3) ''BZh9'']\<rparr>)"
    by (simp add: Bzip2Decompressor_read_def stream_end_reached_def set_offset_def
          empty_stream_env_def quiet_env_def file_decompressor_def INT_MAX_def
          BZ_OK_def BZ_STREAM_END_def)
  have second: "fst (Bzip2Decompressor_read 1048576 last_stream_env
        (file_decompressor\<lparr>m_bzfile := Some 1,
           calls := [BZ2_bzReadOpen (FILE 3) [], BZ2_bzRead 0, BZ2_bzReadGetUnused 0,
                     BZ2_bzReadClose 0, BZ2_bzReadOpen (FILE 3) ''BZh9'']\<rparr>))
      = Ok ''<osm/>''"
    by (simp add: Bzip2Decompressor_read_def stream_end_reached_def set_offset_def
          last_stream_env_def quiet_env_def file_decompressor_def INT_MAX_def
          BZ_OK_def BZ_STREAM_END_def)
  from init first second show ?thesis by (simp add: file_decompressor_def)
qed

text \<open>
  Claim C8. Take a file of two concatenated streams that is short enough for the codec to
  take all of it into its buffer at once. When the codec reports the end of the first
  stream it holds the bytes of the second as leftover bytes, and the end-of-file indicator
  of the file is set. By sub-case (1) a decode stream seeded with exactly the leftover
  bytes is opened. \<open>read\<close> tests the indicator first: it does not ask for the unused
  bytes, opens no stream and marks the stream as ended, and a later \<open>read\<close> returns the
  empty string whatever the codec would decode, so the second stream is lost. With the same
  leftover bytes and the indicator unset, \<open>read\<close> does close the stream and open one
  seeded with them.
\<close>

theorem leftover_at_eof_not_reopened:
  "fst (bzRead_result leftover_at_eof_env) = BZ_STREAM_END
   \<and> bzReadGetUnused_result leftover_at_eof_env = (BZ_OK, ''BZh9'')
   \<and> feof_result leftover_at_eof_env
   \<and> Bzip2Decompressor_read 1048576 leftover_at_eof_env file_decompressor
       = (Ok ''<osm/>'', file_decompressor\<lparr>m_stream_end := True,
            calls := [BZ2_bzReadOpen (FILE 3) [], BZ2_bzRead 0]\<rparr>)
   \<and> reopen_seeds file_decompressor
         (snd (Bzip2Decompressor_read 1048576 leftover_at_eof_env file_decompressor)) = []
   \<and> fst (Bzip2Decompressor_read 1048576 last_stream_env
             (snd (Bzip2Decompressor_read 1048576 leftover_at_eof_env file_decompressor)))
       = Ok []
   \<and> Bzip2Decompressor_read 1048576 (leftover_at_eof_env\<lparr>feof_result := False\<rparr>) file_decompressor
       = (Ok ''<osm/>'', file_decompressor\<lparr>
            calls := [BZ2_bzReadOpen (FILE 3) [], BZ2_bzRead 0, BZ2_bzReadGetUnused 0,
                      BZ2_bzReadClose 0, BZ2_bzReadOpen (FILE 3) ''BZh9'']\<rparr>)"
proof -
  have env: "fst (bzRead_result leftover_at_eof_env) = BZ_STREAM_END"
    "bzReadGetUnused_result leftover_at_eof_env = (BZ_OK, ''BZh9'')"
    "feof_result leftover_at_eof_env"
    by (simp_all add: leftover_at_eof_env_def quiet_env_def)
  have rd: "Bzip2Decompressor_read 1048576 leftover_at_eof_env file_decompressor
      = (Ok ''<osm/>'', file_decompressor\<lparr>m_stream_end := True,
           calls := [BZ2_bzReadOpen (FILE 3) [], BZ2_bzRead 0]\<rparr>)"
    by (simp add: Bzip2Decompressor_read_def stream_end_reached_def set_offset_def
          leftover_at_eof_env_def quiet_env_def file_decompressor_def INT_MAX_def
          BZ_OK_def BZ_STREAM_END_def)
  have seeds: "reopen_seeds file_decompressor
      (file_decompressor\<lparr>m_stream_end := True,
           calls := [BZ2_bzReadOpen (FILE 3) [], BZ2_bzRead 0]\<rparr>) = []"
    by (simp add: reopen_seeds_def file_decompressor_def List.map_filter_simps)
  have later: "fst (Bzip2Decompressor_read 1048576 last_stream_env
      (file_decompressor\<lparr>m_stream_end := True,
           calls := [BZ2_bzReadOpen (FILE 3) [], BZ2_bzRead 0]\<rparr>)) = Ok []"
    by (simp add: Bzip2Decompressor_read_def set_offset_def file_decompressor_def
          last_stream_env_def quiet_env_def)
  have sibling: "Bzip2Decompressor_read 1048576 (leftover_at_eof_env\<lparr>feof_result := False\<rparr>)
        file_decompressor
      = (Ok ''<osm/>'', file_decompressor\<lparr>
            calls := [BZ2_bzReadOpen (FILE 3) [], BZ2_bzRead 0, BZ2_bzReadGetUnused 0,
                      BZ2_bzReadClose 0, BZ2_bzReadOpen (FILE 3) ''BZh9'']\<rparr>)"
    by (simp add: Bzip2Decompressor_read_def stream_end_reached_def set_offset_def
          leftover_at_eof_env_def quiet_env_def file_decompressor_def INT_MAX_def
          BZ_OK_def BZ_STREAM_END_def)
  from env rd seeds later sibling show ?thesis by simp
qed

end
